theory Spec2Isabelle
  imports Main
begin

section \<open>The repositories store (src/shared-process/repositories-store.ts)\<close>

subsection \<open>Domain value objects\<close>

text \<open>
  Modelled from the spec: the classes \<open>Owner\<close>, \<open>GitHubRepository\<close> and \<open>Repository\<close>
  live in \<open>../models\<close>, which is not part of the source at hand. The spec gives them as
  \<open>Owner(login, endpoint)\<close>, \<open>HostedRepository(name, Owner, private, fork, htmlURL)\<close> and
  \<open>Repository(path, optional HostedRepository, id)\<close>; the constructor arguments are in the
  order of the \<open>new\<close> expressions of the store, the selectors are the getters it calls.
\<close>

datatype Owner = Owner (getLogin: string) (getEndpoint: string)

datatype GitHubRepository =
  GitHubRepository (getName: string) (getOwner: Owner) (getPrivate: bool) (getFork: bool)
    (getHTMLURL: string)

datatype Repository =
  Repository (getPath: string) (getGitHubRepository: "GitHubRepository option")
    (getID: "nat option")

text \<open>
  Modelled from the spec: \<open>repositoryWithID\<close> is a method of the absent \<open>Repository\<close>
  class; the spec says it re-expresses the repository with the given id, all other fields
  unchanged.
\<close>

definition repositoryWithID :: "Repository \<Rightarrow> nat option \<Rightarrow> Repository" where
  "repositoryWithID repo i = Repository (getPath repo) (getGitHubRepository repo) i"

subsection \<open>Rows and tables\<close>

text \<open>The objects the store hands to \<open>add\<close> and \<open>put\<close>; the primary key is kept beside them.\<close>

record owner_row =
  login :: string
  endpoint :: string

record gitHubRepository_row =
  name :: string
  ownerID :: nat
  privateFlag :: bool
  fork :: bool
  htmlURL :: string

record repository_row =
  path :: string
  gitHubRepositoryID :: "nat option"

text \<open>
  Modelled from the spec: the tables of \<open>./database\<close> (a Dexie database, absent from the
  source). A table is the list of its rows in the table's natural order, each row with its
  generated primary key. The primitives are those of the spec's section 6:
  \<open>get\<close> (a record or absent), \<open>add\<close> (returns the generated id), \<open>put\<close>
  (insert-or-replace), \<open>toArray\<close>, and the query by \<open>login\<close> ignoring case.
\<close>

type_synonym 'a table = "(nat \<times> 'a) list"

text \<open>\<open>get\<close> with \<open>null\<close> for the key finds no row.\<close>

definition table_get :: "'a table \<Rightarrow> nat option \<Rightarrow> (nat \<times> 'a) option" where
  "table_get t key = (case key of None \<Rightarrow> None | Some k \<Rightarrow> find (\<lambda>r. fst r = k) t)"

text \<open>The key generator: one more than the largest key in the table, so never \<open>0\<close>.\<close>

definition next_key :: "'a table \<Rightarrow> nat" where
  "next_key t = Suc (fold max (map fst t) 0)"

definition table_add :: "'a table \<Rightarrow> 'a \<Rightarrow> nat \<times> 'a table" where
  "table_add t v = (let k = next_key t in (k, t @ [(k, v)]))"

definition table_put :: "'a table \<Rightarrow> 'a \<Rightarrow> nat option \<Rightarrow> nat \<times> 'a table" where
  "table_put t v key =
     (case key of
        None \<Rightarrow> table_add t v
      | Some k \<Rightarrow>
          if k \<in> set (map fst t) then (k, map (\<lambda>r. if fst r = k then (k, v) else r) t)
          else (k, t @ [(k, v)]))"

definition toArray :: "'a table \<Rightarrow> (nat \<times> 'a) list" where
  "toArray t = t"

definition toLowerCase :: "char \<Rightarrow> char" where
  "toLowerCase c =
     (let n = (of_char c :: nat) in if 65 \<le> n \<and> n \<le> 90 then char_of (n + 32) else c)"

definition equalsIgnoreCase :: "string \<Rightarrow> string \<Rightarrow> bool" where
  "equalsIgnoreCase a b = (map toLowerCase a = map toLowerCase b)"

definition first_equalsIgnoreCase :: "owner_row table \<Rightarrow> string \<Rightarrow> (nat \<times> owner_row) option" where
  "first_equalsIgnoreCase t l = find (\<lambda>r. equalsIgnoreCase (login (snd r)) l) t"

record database =
  repositories :: "repository_row table"
  gitHubRepositories :: "gitHubRepository_row table"
  owners :: "owner_row table"

definition empty_database :: database where
  "empty_database = \<lparr>repositories = [], gitHubRepositories = [], owners = []\<rparr>"

subsection \<open>Transactions\<close>

text \<open>
  \<open>TypeError\<close> is what JavaScript throws on reading a property of \<open>undefined\<close> or
  \<open>null\<close>; \<open>StoreFailure\<close> is a request the storage engine rejects.
\<close>

datatype error = TypeError | StoreFailure

text \<open>
  Modelled from the spec: the transaction machinery of the absent database class. The
  body of a transaction is a sequence of suspension points (\<open>yield\<close>), each a request to
  the store. A body works on the state of the running transaction: the tables as written
  so far and the number of requests the engine will still serve (\<open>None\<close>: it never
  fails). A body that throws leaves what it wrote in that working state; \<open>transaction\<close>
  commits the working state when the body returns, and discards it when the body fails or
  when the engine fails at the commit.
\<close>

record txstate =
  tx_db :: database
  tx_budget :: "nat option"

type_synonym 'a tx = "txstate \<Rightarrow> (error + 'a) \<times> txstate"

definition return_tx :: "'a \<Rightarrow> 'a tx" where
  "return_tx v s = (Inr v, s)"

definition throw_tx :: "error \<Rightarrow> 'a tx" where
  "throw_tx e s = (Inl e, s)"

definition then_tx :: "'a tx \<Rightarrow> ('a \<Rightarrow> 'b tx) \<Rightarrow> 'b tx" where
  "then_tx m f s = (case m s of (Inl e, s') \<Rightarrow> (Inl e, s') | (Inr v, s') \<Rightarrow> f v s')"

definition request :: "(database \<Rightarrow> 'a \<times> database) \<Rightarrow> 'a tx" where
  "request f s =
     (if tx_budget s = Some 0 then (Inl StoreFailure, s)
      else (case f (tx_db s) of
              (v, d) \<Rightarrow> (Inr v, \<lparr>tx_db = d, tx_budget = map_option (\<lambda>n. n - 1) (tx_budget s)\<rparr>)))"

definition transaction :: "'a tx \<Rightarrow> nat option \<Rightarrow> database \<Rightarrow> (error + 'a) \<times> database" where
  "transaction body fault d =
     (case body \<lparr>tx_db = d, tx_budget = fault\<rparr> of
        (Inl e, s) \<Rightarrow> (Inl e, d)
      | (Inr v, s) \<Rightarrow>
          if tx_budget s = Some 0 then (Inl StoreFailure, d) else (Inr v, tx_db s))"

text \<open>The requests the store issues, one per \<open>yield\<close> of the source.\<close>

definition repositories_toArray :: "(nat \<times> repository_row) list tx" where
  "repositories_toArray = request (\<lambda>d. (toArray (repositories d), d))"

definition repositories_get :: "nat option \<Rightarrow> (nat \<times> repository_row) option tx" where
  "repositories_get key = request (\<lambda>d. (table_get (repositories d) key, d))"

definition repositories_add :: "repository_row \<Rightarrow> nat tx" where
  "repositories_add v =
     request (\<lambda>d. case table_add (repositories d) v of (k, t) \<Rightarrow> (k, d\<lparr>repositories := t\<rparr>))"

definition gitHubRepositories_get :: "nat option \<Rightarrow> (nat \<times> gitHubRepository_row) option tx" where
  "gitHubRepositories_get key = request (\<lambda>d. (table_get (gitHubRepositories d) key, d))"

definition gitHubRepositories_add :: "gitHubRepository_row \<Rightarrow> nat tx" where
  "gitHubRepositories_add v =
     request (\<lambda>d. case table_add (gitHubRepositories d) v of
                    (k, t) \<Rightarrow> (k, d\<lparr>gitHubRepositories := t\<rparr>))"

definition gitHubRepositories_put :: "gitHubRepository_row \<Rightarrow> nat option \<Rightarrow> nat tx" where
  "gitHubRepositories_put v key =
     request (\<lambda>d. case table_put (gitHubRepositories d) v key of
                    (k, t) \<Rightarrow> (k, d\<lparr>gitHubRepositories := t\<rparr>))"

definition owners_get :: "nat option \<Rightarrow> (nat \<times> owner_row) option tx" where
  "owners_get key = request (\<lambda>d. (table_get (owners d) key, d))"

definition owners_add :: "owner_row \<Rightarrow> nat tx" where
  "owners_add v =
     request (\<lambda>d. case table_add (owners d) v of (k, t) \<Rightarrow> (k, d\<lparr>owners := t\<rparr>))"

definition owners_first_equalsIgnoreCase :: "string \<Rightarrow> (nat \<times> owner_row) option tx" where
  "owners_first_equalsIgnoreCase l = request (\<lambda>d. (first_equalsIgnoreCase (owners d) l, d))"

subsection \<open>getRepositories\<close>

text \<open>
  \<open>if (repo.gitHubRepositoryID)\<close> tests a number or \<open>null\<close> for truthiness: \<open>null\<close> and
  \<open>0\<close> are falsy.
\<close>

definition truthy :: "nat option \<Rightarrow> bool" where
  "truthy k = (case k of None \<Rightarrow> False | Some n \<Rightarrow> n \<noteq> 0)"

text \<open>
  One turn of the loop. \<open>gitHubRepository.ownerID\<close> and \<open>owner.login\<close> throw a TypeError
  when \<open>get\<close> found no row.
\<close>

definition inflate :: "nat \<times> repository_row \<Rightarrow> Repository tx" where
  "inflate repo =
     (if truthy (gitHubRepositoryID (snd repo)) then
        then_tx (gitHubRepositories_get (gitHubRepositoryID (snd repo))) (\<lambda>gitHubRepository.
          case gitHubRepository of
            None \<Rightarrow> throw_tx TypeError
          | Some g \<Rightarrow>
              then_tx (owners_get (Some (ownerID (snd g)))) (\<lambda>owner.
                case owner of
                  None \<Rightarrow> throw_tx TypeError
                | Some ow \<Rightarrow>
                    return_tx
                      (Repository (path (snd repo))
                         (Some (GitHubRepository (name (snd g))
                            (Owner (login (snd ow)) (endpoint (snd ow)))
                            (privateFlag (snd g)) (fork (snd g)) (htmlURL (snd g))))
                         (Some (fst repo)))))
      else return_tx (Repository (path (snd repo)) None (Some (fst repo))))"

fun inflate_loop :: "(nat \<times> repository_row) list \<Rightarrow> Repository list \<Rightarrow> Repository list tx" where
  "inflate_loop [] inflatedRepos s = (Inr inflatedRepos, s)"
| "inflate_loop (repo # repos) inflatedRepos s =
     (case inflate repo s of
        (Inl e, s') \<Rightarrow> (Inl e, s')
      | (Inr inflatedRepo, s') \<Rightarrow> inflate_loop repos (inflatedRepos @ [inflatedRepo]) s')"

definition getRepositories_body :: "Repository list tx" where
  "getRepositories_body = then_tx repositories_toArray (\<lambda>repos. inflate_loop repos [])"

definition getRepositories :: "nat option \<Rightarrow> database \<Rightarrow> error + Repository list" where
  "getRepositories fault d = fst (transaction getRepositories_body fault d)"

subsection \<open>addRepository\<close>

definition addRepository_body :: "Repository \<Rightarrow> nat tx" where
  "addRepository_body repo =
     then_tx
       (case getGitHubRepository repo of
          Some gitHubRepository \<Rightarrow>
            then_tx (owners_first_equalsIgnoreCase (getLogin (getOwner gitHubRepository)))
              (\<lambda>existingOwner.
                then_tx
                  (case existingOwner of
                     Some ex \<Rightarrow> return_tx (fst ex)
                   | None \<Rightarrow>
                       owners_add \<lparr>login = getLogin (getOwner gitHubRepository),
                                   endpoint = getEndpoint (getOwner gitHubRepository)\<rparr>)
                  (\<lambda>oid.
                    then_tx
                      (gitHubRepositories_add
                         \<lparr>name = getName gitHubRepository, ownerID = oid,
                          privateFlag = getPrivate gitHubRepository,
                          fork = getFork gitHubRepository,
                          htmlURL = getHTMLURL gitHubRepository\<rparr>)
                      (\<lambda>k. return_tx (Some k))))
        | None \<Rightarrow> return_tx None)
       (\<lambda>gid. repositories_add \<lparr>path = getPath repo, gitHubRepositoryID = gid\<rparr>)"

definition addRepository :: "nat option \<Rightarrow> Repository \<Rightarrow> database \<Rightarrow> (error + Repository) \<times> database" where
  "addRepository fault repo d =
     (case transaction (addRepository_body repo) fault d of
        (Inl e, d') \<Rightarrow> (Inl e, d')
      | (Inr i, d') \<Rightarrow> (Inr (repositoryWithID repo (Some i)), d'))"

subsection \<open>updateGitHubRepository\<close>

text \<open>
  \<open>localRepo.gitHubRepositoryID\<close>, \<open>existingGitHubRepo.ownerID\<close> and the getters of
  \<open>newGitHubRepo\<close> throw a TypeError on \<open>undefined\<close> or \<open>null\<close>. The read of
  \<open>existingGitHubRepo.ownerID\<close> comes before the test \<open>!existingGitHubRepo\<close>, as in the
  source.
\<close>

definition updateGitHubRepository_body :: "Repository \<Rightarrow> unit tx" where
  "updateGitHubRepository_body repository =
     then_tx (repositories_get (getID repository)) (\<lambda>localRepo.
       case localRepo of
         None \<Rightarrow> throw_tx TypeError
       | Some lr \<Rightarrow>
           then_tx (gitHubRepositories_get (gitHubRepositoryID (snd lr))) (\<lambda>existingGitHubRepo.
             then_tx
               (case existingGitHubRepo of
                  None \<Rightarrow> throw_tx TypeError
                | Some ex \<Rightarrow> return_tx (ownerID (snd ex)))
               (\<lambda>oid0.
                 then_tx
                   (if existingGitHubRepo = None then
                      (case getGitHubRepository repository of
                         None \<Rightarrow> throw_tx TypeError
                       | Some newGitHubRepo \<Rightarrow>
                           owners_add \<lparr>login = getLogin (getOwner newGitHubRepo),
                                       endpoint = getEndpoint (getOwner newGitHubRepo)\<rparr>)
                    else return_tx oid0)
                   (\<lambda>oid.
                     case getGitHubRepository repository of
                       None \<Rightarrow> throw_tx TypeError
                     | Some newGitHubRepo \<Rightarrow>
                         then_tx
                           (gitHubRepositories_put
                              \<lparr>name = getName newGitHubRepo, ownerID = oid,
                               privateFlag = getPrivate newGitHubRepo,
                               fork = getFork newGitHubRepo,
                               htmlURL = getHTMLURL newGitHubRepo\<rparr>
                              (case existingGitHubRepo of
                                 Some ex \<Rightarrow> Some (fst ex)
                               | None \<Rightarrow> None))
                           (\<lambda>_. return_tx ())))))"

definition updateGitHubRepository :: "nat option \<Rightarrow> Repository \<Rightarrow> database \<Rightarrow> (error + unit) \<times> database" where
  "updateGitHubRepository fault repository d =
     transaction (updateGitHubRepository_body repository) fault d"

subsection \<open>Runs of the store\<close>

text \<open>
  The store's writers are \<open>addRepository\<close> and \<open>updateGitHubRepository\<close>; a step is one call
  of either, committed or failed. \<open>owners_unique\<close> is the invariant of the data model: at
  most one Owner row for each login, compared ignoring case.
\<close>

definition owners_unique :: "owner_row table \<Rightarrow> bool" where
  "owners_unique t = distinct (map (\<lambda>r. map toLowerCase (login (snd r))) t)"

inductive store_step :: "database \<Rightarrow> database \<Rightarrow> bool" where
  add: "addRepository fault repo d = (res, d') \<Longrightarrow> store_step d d'"
| update: "updateGitHubRepository fault repository d = (ures, d') \<Longrightarrow> store_step d d'"

inductive store_steps :: "database \<Rightarrow> database \<Rightarrow> bool" where
  none: "store_steps d d"
| more: "store_steps d d' \<Longrightarrow> store_step d' d'' \<Longrightarrow> store_steps d d''"

subsection \<open>Example data\<close>

text \<open>The repositories of the spec's scenarios, and a few small databases.\<close>

definition hosted_alice :: GitHubRepository where
  "hosted_alice =
     GitHubRepository ''proj'' (Owner ''Alice'' ''https://api.example.com'') False False
       ''https://example.com/a/proj''"

definition repo_alice :: Repository where
  "repo_alice =
     Repository ''/repo''
       (Some (GitHubRepository ''proj'' (Owner ''Alice'' ''https://api.example.com'') False False
          ''https://example.com/a/proj''))
       None"

definition repo_bob :: Repository where
  "repo_bob =
     Repository ''/a'' (Some (GitHubRepository ''p'' (Owner ''bob'' ''e1'') False False ''u'')) None"

definition repo_BOB :: Repository where
  "repo_BOB =
     Repository ''/b'' (Some (GitHubRepository ''q'' (Owner ''BOB'' ''e2'') True False ''v'')) None"

definition repo_local :: Repository where
  "repo_local = Repository ''/local'' None None"

definition db_bare :: database where
  "db_bare =
     \<lparr>repositories = [(1, \<lparr>path = ''/repo'', gitHubRepositoryID = None\<rparr>)],
      gitHubRepositories = [], owners = []\<rparr>"

definition db_dangling :: database where
  "db_dangling =
     \<lparr>repositories = [(1, \<lparr>path = ''/repo'', gitHubRepositoryID = Some 7\<rparr>)],
      gitHubRepositories = [], owners = []\<rparr>"

definition hosted_bob :: GitHubRepository where
  "hosted_bob = GitHubRepository ''p'' (Owner ''bob'' ''e1'') False False ''u''"

definition hosted_BOB :: GitHubRepository where
  "hosted_BOB = GitHubRepository ''q'' (Owner ''BOB'' ''e2'') True False ''v''"

definition db_mixed :: database where
  "db_mixed =
     \<lparr>repositories = [(1, \<lparr>path = ''/local'', gitHubRepositoryID = None\<rparr>),
                      (2, \<lparr>path = ''/repo'', gitHubRepositoryID = Some 1\<rparr>)],
      gitHubRepositories =
        [(1, \<lparr>name = ''proj'', ownerID = 1, privateFlag = False, fork = False,
               htmlURL = ''https://example.com/a/proj''\<rparr>)],
      owners = [(1, \<lparr>login = ''Alice'', endpoint = ''https://api.example.com''\<rparr>)]\<rparr>"

definition db_zero_link :: database where
  "db_zero_link =
     \<lparr>repositories = [(1, \<lparr>path = ''/repo'', gitHubRepositoryID = Some 0\<rparr>)],
      gitHubRepositories = [], owners = []\<rparr>"

definition db_no_owner :: database where
  "db_no_owner =
     \<lparr>repositories = [(1, \<lparr>path = ''/repo'', gitHubRepositoryID = Some 1\<rparr>)],
      gitHubRepositories =
        [(1, \<lparr>name = ''proj'', ownerID = 3, privateFlag = False, fork = False,
               htmlURL = ''https://example.com/a/proj''\<rparr>)],
      owners = []\<rparr>"

definition db_bob :: database where
  "db_bob =
     \<lparr>repositories = [(1, \<lparr>path = ''/a'', gitHubRepositoryID = Some 1\<rparr>)],
      gitHubRepositories =
        [(1, \<lparr>name = ''p'', ownerID = 1, privateFlag = False, fork = False, htmlURL = ''u''\<rparr>)],
      owners = [(1, \<lparr>login = ''bob'', endpoint = ''e1''\<rparr>)]\<rparr>"

definition db_bob_local :: database where
  "db_bob_local =
     \<lparr>repositories = [(1, \<lparr>path = ''/a'', gitHubRepositoryID = Some 1\<rparr>),
                      (2, \<lparr>path = ''/local'', gitHubRepositoryID = None\<rparr>)],
      gitHubRepositories =
        [(1, \<lparr>name = ''p'', ownerID = 1, privateFlag = False, fork = False, htmlURL = ''u''\<rparr>)],
      owners = [(1, \<lparr>login = ''bob'', endpoint = ''e1''\<rparr>)]\<rparr>"

definition db_bob_BOB :: database where
  "db_bob_BOB =
     \<lparr>repositories = [(1, \<lparr>path = ''/a'', gitHubRepositoryID = Some 1\<rparr>),
                      (2, \<lparr>path = ''/local'', gitHubRepositoryID = None\<rparr>),
                      (3, \<lparr>path = ''/b'', gitHubRepositoryID = Some 2\<rparr>)],
      gitHubRepositories =
        [(1, \<lparr>name = ''p'', ownerID = 1, privateFlag = False, fork = False, htmlURL = ''u''\<rparr>),
         (2, \<lparr>name = ''q'', ownerID = 1, privateFlag = True, fork = False, htmlURL = ''v''\<rparr>)],
      owners = [(1, \<lparr>login = ''bob'', endpoint = ''e1''\<rparr>)]\<rparr>"

section \<open>Properties\<close>

subsection \<open>Tables\<close>

lemmas tx_defs = return_tx_def throw_tx_def then_tx_def request_def transaction_def

lemmas req_defs = repositories_toArray_def repositories_get_def repositories_add_def
  gitHubRepositories_get_def gitHubRepositories_add_def gitHubRepositories_put_def
  owners_get_def owners_add_def owners_first_equalsIgnoreCase_def

lemma fold_max_ge: "(a::nat) \<le> fold max xs a"
  by (induction xs arbitrary: a) (auto intro: order_trans [OF max.cobounded2])

lemma fold_max_mem: "x \<in> set xs \<Longrightarrow> (x::nat) \<le> fold max xs a"
proof (induction xs arbitrary: a)
  case Nil
  then show ?case by simp
next
  case (Cons y ys)
  show ?case
  proof (cases "x = y")
    case True
    have "x \<le> max x a" by simp
    also have "\<dots> \<le> fold max ys (max x a)" by (rule fold_max_ge)
    finally show ?thesis using True by simp
  next
    case False
    with Cons show ?thesis by simp
  qed
qed

text \<open>A generated key is larger than every key of the table, and is never \<open>0\<close>.\<close>

lemma next_key_gt: "r \<in> set t \<Longrightarrow> fst r < next_key t"
  unfolding next_key_def using fold_max_mem [of "fst r" "map fst t" 0] by force

lemma next_key_pos: "next_key t \<noteq> 0"
  by (simp add: next_key_def)

lemma table_get_SomeD: "table_get t key = Some x \<Longrightarrow> key = Some (fst x) \<and> x \<in> set t"
  by (auto simp: table_get_def find_Some_iff split: option.splits)

lemma table_put_existing:
  "x \<in> set t \<Longrightarrow>
     table_put t v (Some (fst x)) = (fst x, map (\<lambda>r. if fst r = fst x then (fst x, v) else r) t)"
  by (simp add: table_put_def)

lemma first_equalsIgnoreCase_SomeD:
  "first_equalsIgnoreCase t l = Some ex \<Longrightarrow> ex \<in> set t \<and> equalsIgnoreCase (login (snd ex)) l"
  by (auto simp: first_equalsIgnoreCase_def find_Some_iff)

lemma equalsIgnoreCase_refl: "equalsIgnoreCase l l"
  by (simp add: equalsIgnoreCase_def)

subsection \<open>What addRepository writes\<close>

lemma addRepository_Inl: "addRepository fault repo d = (Inl e, d') \<Longrightarrow> d' = d"
  by (auto simp: addRepository_def transaction_def split: prod.splits sum.splits if_splits)

lemma addRepository_Inr:
  assumes "addRepository fault repo d = (Inr r, d')"
  shows "r = repositoryWithID repo (Some (next_key (repositories d)))"
    and "repositories d' = repositories d @
           [(next_key (repositories d),
             \<lparr>path = getPath repo,
              gitHubRepositoryID =
                map_option (\<lambda>_. next_key (gitHubRepositories d)) (getGitHubRepository repo)\<rparr>)]"
    and "gitHubRepositories d' =
           (case getGitHubRepository repo of
              None \<Rightarrow> gitHubRepositories d
            | Some g \<Rightarrow> gitHubRepositories d @
                [(next_key (gitHubRepositories d),
                  \<lparr>name = getName g,
                   ownerID = (case first_equalsIgnoreCase (owners d) (getLogin (getOwner g)) of
                                Some ex \<Rightarrow> fst ex | None \<Rightarrow> next_key (owners d)),
                   privateFlag = getPrivate g, fork = getFork g, htmlURL = getHTMLURL g\<rparr>)])"
    and "owners d' =
           (case getGitHubRepository repo of
              None \<Rightarrow> owners d
            | Some g \<Rightarrow>
                (case first_equalsIgnoreCase (owners d) (getLogin (getOwner g)) of
                   Some ex \<Rightarrow> owners d
                 | None \<Rightarrow> owners d @
                     [(next_key (owners d),
                       \<lparr>login = getLogin (getOwner g), endpoint = getEndpoint (getOwner g)\<rparr>)]))"
  using assms
  by (auto simp: addRepository_def addRepository_body_def tx_defs req_defs table_add_def Let_def
      split: prod.splits sum.splits option.splits if_splits)

text \<open>A store that serves every request makes \<open>addRepository\<close> return.\<close>

lemma addRepository_None_returns: "\<exists>r d'. addRepository None repo d = (Inr r, d')"
  by (auto simp: addRepository_def addRepository_body_def tx_defs req_defs table_add_def Let_def
      split: prod.splits sum.splits option.splits if_splits)

subsection \<open>What updateGitHubRepository writes\<close>

lemma updateGitHubRepository_Inl:
  "updateGitHubRepository fault repository d = (Inl e, d') \<Longrightarrow> d' = d"
  by (auto simp: updateGitHubRepository_def transaction_def split: prod.splits sum.splits if_splits)

lemma updateGitHubRepository_Inr:
  assumes "updateGitHubRepository fault repository d = (Inr u, d')"
  shows "repositories d' = repositories d \<and> owners d' = owners d \<and>
    (\<exists>lr ex g. table_get (repositories d) (getID repository) = Some lr \<and>
       table_get (gitHubRepositories d) (gitHubRepositoryID (snd lr)) = Some ex \<and>
       getGitHubRepository repository = Some g \<and>
       gitHubRepositories d' =
         map (\<lambda>r. if fst r = fst ex
                   then (fst ex, \<lparr>name = getName g, ownerID = ownerID (snd ex),
                                  privateFlag = getPrivate g, fork = getFork g,
                                  htmlURL = getHTMLURL g\<rparr>)
                   else r) (gitHubRepositories d))"
proof (cases "table_get (repositories d) (getID repository)")
  case None
  with assms show ?thesis
    by (simp add: updateGitHubRepository_def updateGitHubRepository_body_def tx_defs req_defs
        split: if_splits)
next
  case lr: (Some lr)
  show ?thesis
  proof (cases "table_get (gitHubRepositories d) (gitHubRepositoryID (snd lr))")
    case None
    with assms lr show ?thesis
      by (simp add: updateGitHubRepository_def updateGitHubRepository_body_def tx_defs req_defs
          split: if_splits)
  next
    case ex: (Some ex)
    then have mem: "ex \<in> set (gitHubRepositories d)"
      by (simp add: table_get_SomeD)
    show ?thesis
    proof (cases "getGitHubRepository repository")
      case None
      with assms lr ex show ?thesis
        by (simp add: updateGitHubRepository_def updateGitHubRepository_body_def tx_defs req_defs
            split: if_splits)
    next
      case g: (Some g)
      with assms lr ex have "repositories d' = repositories d \<and> owners d' = owners d \<and>
        gitHubRepositories d' =
         map (\<lambda>r. if fst r = fst ex
                   then (fst ex, \<lparr>name = getName g, ownerID = ownerID (snd ex),
                                  privateFlag = getPrivate g, fork = getFork g,
                                  htmlURL = getHTMLURL g\<rparr>)
                   else r) (gitHubRepositories d)"
        by (auto simp: updateGitHubRepository_def updateGitHubRepository_body_def tx_defs
            req_defs table_put_existing [OF mem] split: if_splits)
      with lr ex g show ?thesis by blast
    qed
  qed
qed

subsection \<open>The loop of getRepositories\<close>

lemma txstate_eta: "\<lparr>tx_db = tx_db s, tx_budget = tx_budget s\<rparr> = (s::txstate)"
  by simp

lemma inflate_db: "inflate repo s = (res, s') \<Longrightarrow> tx_db s' = tx_db s"
  by (auto simp: inflate_def tx_defs req_defs split: if_splits option.splits prod.splits sum.splits)

lemma inflate_budget:
  "inflate repo s = (res, s') \<Longrightarrow>
     res = Inl StoreFailure \<or> res = fst (inflate repo \<lparr>tx_db = tx_db s, tx_budget = None\<rparr>)"
  by (auto simp: inflate_def tx_defs req_defs split: if_splits option.splits prod.splits sum.splits)

lemma inflate_None:
  "tx_budget s = None \<Longrightarrow> snd (inflate repo s) = s"
  by (cases s) (auto simp: inflate_def tx_defs req_defs split: if_splits option.splits prod.splits sum.splits)

lemma inflate_bare:
  "\<not> truthy (gitHubRepositoryID (snd repo)) \<Longrightarrow>
     inflate repo s = (Inr (Repository (path (snd repo)) None (Some (fst repo))), s)"
  by (simp add: inflate_def return_tx_def)

lemma inflate_linked:
  assumes "truthy (gitHubRepositoryID (snd repo))"
    and "table_get (gitHubRepositories d) (gitHubRepositoryID (snd repo)) = Some g"
    and "table_get (owners d) (Some (ownerID (snd g))) = Some ow"
  shows "fst (inflate repo \<lparr>tx_db = d, tx_budget = None\<rparr>) =
     Inr (Repository (path (snd repo))
            (Some (GitHubRepository (name (snd g)) (Owner (login (snd ow)) (endpoint (snd ow)))
               (privateFlag (snd g)) (fork (snd g)) (htmlURL (snd g))))
            (Some (fst repo)))"
  using assms by (simp add: inflate_def tx_defs req_defs)

lemma inflate_dangling:
  assumes "truthy (gitHubRepositoryID (snd repo))"
    and "table_get (gitHubRepositories d) (gitHubRepositoryID (snd repo)) = None \<or>
         (\<exists>g. table_get (gitHubRepositories d) (gitHubRepositoryID (snd repo)) = Some g \<and>
              table_get (owners d) (Some (ownerID (snd g))) = None)"
  shows "fst (inflate repo \<lparr>tx_db = d, tx_budget = None\<rparr>) = Inl TypeError"
  using assms by (auto simp: inflate_def tx_defs req_defs)

lemma inflate_loop_db: "inflate_loop repos acc s = (res, s') \<Longrightarrow> tx_db s' = tx_db s"
proof (induction repos arbitrary: acc s)
  case Nil
  then show ?case by simp
next
  case (Cons repo repos)
  obtain r1 s1 where i: "inflate repo s = (r1, s1)" by (cases "inflate repo s")
  show ?case
  proof (cases r1)
    case (Inl e)
    with Cons.prems i inflate_db [OF i] show ?thesis by auto
  next
    case (Inr y)
    with Cons.prems i have "inflate_loop repos (acc @ [y]) s1 = (res, s')" by simp
    from Cons.IH [OF this] inflate_db [OF i] show ?thesis by simp
  qed
qed

lemma inflate_loop_Inr:
  "inflate_loop repos acc s = (Inr rs, s') \<Longrightarrow>
     \<exists>ys. rs = acc @ ys \<and>
       list_all2 (\<lambda>repo y. fst (inflate repo \<lparr>tx_db = tx_db s, tx_budget = None\<rparr>) = Inr y)
         repos ys"
proof (induction repos arbitrary: acc s)
  case Nil
  then show ?case by simp
next
  case (Cons repo repos)
  obtain r1 s1 where i: "inflate repo s = (r1, s1)" by (cases "inflate repo s")
  show ?case
  proof (cases r1)
    case (Inl e)
    with Cons.prems i show ?thesis by simp
  next
    case (Inr y)
    with Cons.prems i have l: "inflate_loop repos (acc @ [y]) s1 = (Inr rs, s')" by simp
    from Cons.IH [OF l] obtain ys where ys: "rs = (acc @ [y]) @ ys"
      "list_all2 (\<lambda>repo y. fst (inflate repo \<lparr>tx_db = tx_db s1, tx_budget = None\<rparr>) = Inr y) repos ys"
      by blast
    from inflate_budget [OF i] Inr
    have "fst (inflate repo \<lparr>tx_db = tx_db s, tx_budget = None\<rparr>) = Inr y" by auto
    with ys inflate_db [OF i] have "rs = acc @ (y # ys) \<and>
       list_all2 (\<lambda>repo y. fst (inflate repo \<lparr>tx_db = tx_db s, tx_budget = None\<rparr>) = Inr y)
         (repo # repos) (y # ys)"
      by simp
    then show ?thesis by blast
  qed
qed

lemma inflate_loop_fails:
  "repo \<in> set repos \<Longrightarrow> fst (inflate repo \<lparr>tx_db = tx_db s, tx_budget = None\<rparr>) = Inl e \<Longrightarrow>
     \<exists>e'. fst (inflate_loop repos acc s) = Inl e'"
proof (induction repos arbitrary: acc s)
  case Nil
  then show ?case by simp
next
  case (Cons x repos)
  obtain r1 s1 where i: "inflate x s = (r1, s1)" by (cases "inflate x s")
  show ?case
  proof (cases r1)
    case (Inl e1)
    with i show ?thesis by simp
  next
    case (Inr y)
    from inflate_budget [OF i] Inr
    have ok: "fst (inflate x \<lparr>tx_db = tx_db s, tx_budget = None\<rparr>) = Inr y" by auto
    with Cons.prems have "repo \<in> set repos" by auto
    moreover have "fst (inflate repo \<lparr>tx_db = tx_db s1, tx_budget = None\<rparr>) = Inl e"
      using Cons.prems(2) inflate_db [OF i] by simp
    ultimately have "\<exists>e'. fst (inflate_loop repos (acc @ [y]) s1) = Inl e'"
      by (rule Cons.IH)
    with i Inr show ?thesis by simp
  qed
qed

text \<open>With a store that serves every request the loop fails exactly at the first row that
  cannot be inflated, and returns when every row can.\<close>

lemma inflate_loop_None:
  "tx_budget s = None \<Longrightarrow>
     fst (inflate_loop repos acc s) =
       (if \<forall>repo\<in>set repos. \<exists>y. fst (inflate repo s) = Inr y
        then Inr (acc @ map (\<lambda>repo. projr (fst (inflate repo s))) repos)
        else Inl TypeError)"
proof (induction repos arbitrary: acc)
  case Nil
  then show ?case by simp
next
  case (Cons x repos)
  obtain r1 s1 where i: "inflate x s = (r1, s1)" by (cases "inflate x s")
  from inflate_None [OF Cons.prems, of x] i have s1: "s1 = s" by simp
  show ?case
  proof (cases r1)
    case (Inl e1)
    from inflate_budget [OF i] Inl Cons.prems
    have "e1 = TypeError \<or> e1 = StoreFailure" by (cases e1) auto
    moreover have "e1 \<noteq> StoreFailure"
      using i Inl Cons.prems
      by (auto simp: inflate_def tx_defs req_defs split: if_splits option.splits prod.splits sum.splits)
    ultimately show ?thesis using i Inl by auto
  next
    case (Inr y)
    with i s1 Cons.IH [OF Cons.prems, of "acc @ [y]"] show ?thesis by simp
  qed
qed

lemma inflate_loop_budget_None:
  "tx_budget s = None \<Longrightarrow> snd (inflate_loop repos acc s) = s"
proof (induction repos arbitrary: acc)
  case Nil
  then show ?case by simp
next
  case (Cons x repos)
  obtain r1 s1 where i: "inflate x s = (r1, s1)" by (cases "inflate x s")
  from inflate_None [OF Cons.prems, of x] i have "s1 = s" by simp
  with i Cons.IH [OF Cons.prems] show ?case by (cases r1) simp_all
qed

lemma getRepositories_Inr:
  assumes "getRepositories fault d = Inr rs"
  shows "list_all2 (\<lambda>repo y. fst (inflate repo \<lparr>tx_db = d, tx_budget = None\<rparr>) = Inr y)
           (repositories d) rs"
proof -
  from assms obtain s s' where
    "inflate_loop (repositories d) [] s = (Inr rs, s')" and "tx_db s = d"
    by (auto simp: getRepositories_def getRepositories_body_def tx_defs req_defs toArray_def
        split: if_splits prod.splits sum.splits)
  with inflate_loop_Inr [of "repositories d" "[]" s rs s'] show ?thesis by auto
qed

lemma getRepositories_fails:
  assumes "repo \<in> set (repositories d)"
    and "fst (inflate repo \<lparr>tx_db = d, tx_budget = None\<rparr>) = Inl e"
  shows "\<exists>e'. getRepositories fault d = Inl e'"
proof (cases "fault = Some 0")
  case True
  then show ?thesis
    by (simp add: getRepositories_def getRepositories_body_def tx_defs req_defs)
next
  case False
  let ?s = "\<lparr>tx_db = d, tx_budget = map_option (\<lambda>n. n - 1) fault\<rparr>"
  from inflate_loop_fails [of repo "repositories d" ?s e "[]"] assms
  obtain e' where "fst (inflate_loop (repositories d) [] ?s) = Inl e'" by auto
  with False show ?thesis
    by (auto simp: getRepositories_def getRepositories_body_def tx_defs req_defs toArray_def
        split: prod.splits sum.splits)
qed

lemma getRepositories_None:
  "getRepositories None d =
     (if \<forall>repo\<in>set (repositories d). \<exists>y. fst (inflate repo \<lparr>tx_db = d, tx_budget = None\<rparr>) = Inr y
      then Inr (map (\<lambda>repo. projr (fst (inflate repo \<lparr>tx_db = d, tx_budget = None\<rparr>))) (repositories d))
      else Inl TypeError)"
proof -
  let ?s = "\<lparr>tx_db = d, tx_budget = None\<rparr>"
  have "getRepositories None d = fst (inflate_loop (repositories d) [] ?s)"
    using inflate_loop_budget_None [of ?s "repositories d" "[]"]
    by (auto simp: getRepositories_def getRepositories_body_def tx_defs req_defs toArray_def
        split: prod.splits sum.splits)
  with inflate_loop_None [of ?s "repositories d" "[]"] show ?thesis by simp
qed

text \<open>When every link of the \<open>repositories\<close> table resolves, the listing returns.\<close>

lemma getRepositories_returns:
  assumes "\<forall>row\<in>set (repositories d). truthy (gitHubRepositoryID (snd row)) \<longrightarrow>
     (\<exists>g ow. table_get (gitHubRepositories d) (gitHubRepositoryID (snd row)) = Some g \<and>
        table_get (owners d) (Some (ownerID (snd g))) = Some ow)"
  shows "\<exists>rs. getRepositories None d = Inr rs"
proof -
  have "\<exists>y. fst (inflate row \<lparr>tx_db = d, tx_budget = None\<rparr>) = Inr y"
    if "row \<in> set (repositories d)" for row
  proof (cases "truthy (gitHubRepositoryID (snd row))")
    case False
    then show ?thesis by (simp add: inflate_bare)
  next
    case True
    with assms that obtain g ow
      where "table_get (gitHubRepositories d) (gitHubRepositoryID (snd row)) = Some g"
        and "table_get (owners d) (Some (ownerID (snd g))) = Some ow"
      by blast
    from inflate_linked [OF True this] show ?thesis by simp
  qed
  then show ?thesis by (simp add: getRepositories_None)
qed

subsection \<open>Lookups in tables that grow\<close>

lemma find_app:
  "find P (xs @ ys) = (case find P xs of Some x \<Rightarrow> Some x | None \<Rightarrow> find P ys)"
  by (induction xs) auto

lemma table_get_append:
  "table_get t key = Some x \<Longrightarrow> table_get (t @ xs) key = Some x"
  by (auto simp: table_get_def find_app split: option.splits)

lemma find_key_None: "(\<forall>r\<in>set t. fst r \<noteq> k) \<Longrightarrow> find (\<lambda>r. fst r = k) t = None"
  by (induction t) auto

lemma table_get_fresh:
  "table_get (t @ [(next_key t, v)]) (Some (next_key t)) = Some (next_key t, v)"
proof -
  have "\<forall>r\<in>set t. fst r \<noteq> next_key t"
    using next_key_gt [of _ t] by fastforce
  then show ?thesis
    by (simp add: table_get_def find_app find_key_None)
qed

lemma table_get_mem:
  "ex \<in> set t \<Longrightarrow> \<exists>x. table_get t (Some (fst ex)) = Some x \<and> fst x = fst ex \<and> x \<in> set t"
proof (induction t)
  case Nil
  then show ?case by simp
next
  case (Cons a t)
  then show ?case by (cases "fst a = fst ex") (auto simp: table_get_def)
qed

lemma table_get_distinct:
  "distinct (map fst t) \<Longrightarrow> ex \<in> set t \<Longrightarrow> table_get t (Some (fst ex)) = Some ex"
proof (induction t)
  case Nil
  then show ?case by simp
next
  case (Cons a t)
  show ?case
  proof (cases "a = ex")
    case True
    then show ?thesis by (simp add: table_get_def)
  next
    case False
    with Cons.prems have m: "ex \<in> set t" and "fst a \<notin> fst ` set t" by auto
    then have "fst a \<noteq> fst ex" by force
    with Cons.IH Cons.prems m show ?thesis by (simp add: table_get_def)
  qed
qed

text \<open>Rows that inflate keep their inflation when the tables only grow at the end.\<close>

lemma inflate_grow:
  assumes "fst (inflate repo \<lparr>tx_db = d, tx_budget = None\<rparr>) = Inr y"
    and "gitHubRepositories d' = gitHubRepositories d @ gs"
    and "owners d' = owners d @ os"
  shows "fst (inflate repo \<lparr>tx_db = d', tx_budget = None\<rparr>) = Inr y"
proof (cases "truthy (gitHubRepositoryID (snd repo))")
  case False
  with assms(1) show ?thesis by (simp add: inflate_bare)
next
  case True
  show ?thesis
  proof (cases "table_get (gitHubRepositories d) (gitHubRepositoryID (snd repo))")
    case None
    with True assms(1) show ?thesis by (simp add: inflate_dangling)
  next
    case g: (Some g)
    show ?thesis
    proof (cases "table_get (owners d) (Some (ownerID (snd g)))")
      case None
      with True g inflate_dangling [of repo d] assms(1) show ?thesis by auto
    next
      case ow: (Some ow)
      from g have g': "table_get (gitHubRepositories d') (gitHubRepositoryID (snd repo)) = Some g"
        by (simp add: assms(2) table_get_append)
      from ow have ow': "table_get (owners d') (Some (ownerID (snd g))) = Some ow"
        by (simp add: assms(3) table_get_append)
      from inflate_linked [OF True g ow] inflate_linked [OF True g' ow'] assms(1)
      show ?thesis by simp
    qed
  qed
qed

lemma truthy_Some: "truthy (Some k) = (k \<noteq> 0)"
  by (simp add: truthy_def)

lemma getRepositories_nth:
  assumes "getRepositories fault d = Inr rs" and "i < length (repositories d)"
  shows "length rs = length (repositories d) \<and>
    fst (inflate (repositories d ! i) \<lparr>tx_db = d, tx_budget = None\<rparr>) = Inr (rs ! i)"
  using getRepositories_Inr [OF assms(1)] assms(2)
  by (auto simp: list_all2_conv_all_nth)

lemma getRepositories_linked_row:
  assumes "getRepositories fault d = Inr rs" and "i < length (repositories d)"
    and "gitHubRepositoryID (snd (repositories d ! i)) = Some k" and "k \<noteq> 0"
    and "table_get (gitHubRepositories d) (Some k) = Some g"
    and "table_get (owners d) (Some (ownerID (snd g))) = Some ow"
  shows "rs ! i =
     Repository (path (snd (repositories d ! i)))
       (Some (GitHubRepository (name (snd g)) (Owner (login (snd ow)) (endpoint (snd ow)))
          (privateFlag (snd g)) (fork (snd g)) (htmlURL (snd g))))
       (Some (fst (repositories d ! i)))"
proof -
  have t: "truthy (gitHubRepositoryID (snd (repositories d ! i)))"
    using assms(3,4) by (simp add: truthy_def)
  from inflate_linked [OF t, of d g ow] assms(3,5,6) getRepositories_nth [OF assms(1,2)]
  show ?thesis by simp
qed

lemma getRepositories_after_add:
  assumes rd: "getRepositories None d = Inr rs0"
    and add: "addRepository fault repo d = (Inr r, d')"
    and h: "getGitHubRepository repo = Some h"
  shows "\<exists>ow. getRepositories None d' =
           Inr (rs0 @ [Repository (getPath repo)
                  (Some (GitHubRepository (getName h) ow (getPrivate h) (getFork h) (getHTMLURL h)))
                  (getID r)]) \<and>
         (first_equalsIgnoreCase (owners d) (getLogin (getOwner h)) = None \<longrightarrow> ow = getOwner h) \<and>
         (\<forall>ex. distinct (map fst (owners d)) \<longrightarrow>
            first_equalsIgnoreCase (owners d) (getLogin (getOwner h)) = Some ex \<longrightarrow>
            ow = Owner (login (snd ex)) (endpoint (snd ex)) \<and>
            equalsIgnoreCase (getLogin ow) (getLogin (getOwner h)))"
proof -
  let ?s = "\<lambda>d. \<lparr>tx_db = d, tx_budget = None\<rparr>"
  let ?oid = "case first_equalsIgnoreCase (owners d) (getLogin (getOwner h)) of
                Some ex \<Rightarrow> fst ex | None \<Rightarrow> next_key (owners d)"
  let ?grow = "\<lparr>name = getName h, ownerID = ?oid, privateFlag = getPrivate h,
                fork = getFork h, htmlURL = getHTMLURL h\<rparr>"
  let ?gk = "next_key (gitHubRepositories d)"
  let ?new = "(next_key (repositories d), \<lparr>path = getPath repo, gitHubRepositoryID = Some ?gk\<rparr>)"
  note w = addRepository_Inr [OF add]
  have reps: "repositories d' = repositories d @ [?new]" using w(2) h by simp
  have ghs: "gitHubRepositories d' = gitHubRepositories d @ [(?gk, ?grow)]" using w(3) h by simp
  obtain os where os: "owners d' = owners d @ os"
    using w(4) h by (auto split: option.splits)
  have rid: "getID r = Some (next_key (repositories d))"
    using w(1) by (simp add: repositoryWithID_def)
  \<comment> \<open>the owner row the new GitHubRepository row points to\<close>
  have "\<exists>ow. table_get (owners d') (Some ?oid) = Some ow \<and>
     (first_equalsIgnoreCase (owners d) (getLogin (getOwner h)) = None \<longrightarrow>
        Owner (login (snd ow)) (endpoint (snd ow)) = getOwner h) \<and>
     (\<forall>ex. distinct (map fst (owners d)) \<longrightarrow>
        first_equalsIgnoreCase (owners d) (getLogin (getOwner h)) = Some ex \<longrightarrow> ow = ex)"
  proof (cases "first_equalsIgnoreCase (owners d) (getLogin (getOwner h))")
    case None
    with w(4) h have "owners d' = owners d @
        [(next_key (owners d),
          \<lparr>login = getLogin (getOwner h), endpoint = getEndpoint (getOwner h)\<rparr>)]" by simp
    with None show ?thesis by (simp add: table_get_fresh)
  next
    case (Some ex)
    with w(4) h have o: "owners d' = owners d" by simp
    from first_equalsIgnoreCase_SomeD [OF Some] have m: "ex \<in> set (owners d)" by simp
    from table_get_mem [OF m] obtain x where "table_get (owners d) (Some (fst ex)) = Some x"
      by blast
    with Some o table_get_distinct [OF _ m] show ?thesis by auto
  qed
  then obtain ow where ow: "table_get (owners d') (Some ?oid) = Some ow"
    and ow_new: "first_equalsIgnoreCase (owners d) (getLogin (getOwner h)) = None \<longrightarrow>
        Owner (login (snd ow)) (endpoint (snd ow)) = getOwner h"
    and ow_old: "\<forall>ex. distinct (map fst (owners d)) \<longrightarrow>
        first_equalsIgnoreCase (owners d) (getLogin (getOwner h)) = Some ex \<longrightarrow> ow = ex"
    by (elim exE conjE)
  let ?x = "Repository (getPath repo)
              (Some (GitHubRepository (getName h) (Owner (login (snd ow)) (endpoint (snd ow)))
                 (getPrivate h) (getFork h) (getHTMLURL h)))
              (getID r)"
  have new: "fst (inflate ?new (?s d')) = Inr ?x"
  proof -
    have t: "truthy (gitHubRepositoryID (snd ?new))"
      by (simp add: truthy_def next_key_pos)
    have g: "table_get (gitHubRepositories d') (gitHubRepositoryID (snd ?new)) = Some (?gk, ?grow)"
      by (simp add: ghs table_get_fresh)
    have o: "table_get (owners d') (Some (ownerID (snd (?gk, ?grow)))) = Some ow"
      using ow by simp
    from inflate_linked [OF t g o] rid show ?thesis by simp
  qed
  \<comment> \<open>the rows that were there inflate as before\<close>
  from rd have all: "\<forall>row\<in>set (repositories d). \<exists>y. fst (inflate row (?s d)) = Inr y"
    and rs0: "rs0 = map (\<lambda>row. projr (fst (inflate row (?s d)))) (repositories d)"
    by (auto simp: getRepositories_None split: if_splits)
  have old: "fst (inflate row (?s d')) = fst (inflate row (?s d))"
    if "row \<in> set (repositories d)" for row
  proof -
    from all that obtain y where y: "fst (inflate row (?s d)) = Inr y" by blast
    from inflate_grow [OF y ghs os] y show ?thesis by simp
  qed
  have "\<forall>row\<in>set (repositories d'). \<exists>y. fst (inflate row (?s d')) = Inr y"
    using all old new by (auto simp: reps)
  then have "getRepositories None d' =
      Inr (map (\<lambda>row. projr (fst (inflate row (?s d')))) (repositories d'))"
    by (simp add: getRepositories_None)
  also have "map (\<lambda>row. projr (fst (inflate row (?s d')))) (repositories d') = rs0 @ [?x]"
    using old new by (simp add: reps rs0)
  finally have res: "getRepositories None d' = Inr (rs0 @ [?x])" .
  have 3: "Owner (login (snd ow)) (endpoint (snd ow)) = Owner (login (snd ex)) (endpoint (snd ex)) \<and>
      equalsIgnoreCase (getLogin (Owner (login (snd ow)) (endpoint (snd ow)))) (getLogin (getOwner h))"
    if "distinct (map fst (owners d))"
      and "first_equalsIgnoreCase (owners d) (getLogin (getOwner h)) = Some ex" for ex
    using ow_old that first_equalsIgnoreCase_SomeD [OF that(2)] by simp
  from res ow_new 3 show ?thesis
    by (intro exI [of _ "Owner (login (snd ow)) (endpoint (snd ow))"])
      (auto dest: first_equalsIgnoreCase_SomeD)
qed

subsection \<open>Invariants of the runs\<close>

lemma distinct_map_filter_single:
  "distinct (map f xs) \<Longrightarrow> x \<in> set xs \<Longrightarrow> filter (\<lambda>y. f y = f x) xs = [x]"
proof (induction xs)
  case Nil
  then show ?case by simp
next
  case (Cons a xs)
  show ?case
  proof (cases "a = x")
    case True
    from Cons.prems(1) have "f a \<notin> f ` set xs" by simp
    then have "filter (\<lambda>y. f y = f a) xs = []"
      unfolding filter_empty_conv by (metis imageI)
    with True show ?thesis by simp
  next
    case False
    with Cons.prems have m: "x \<in> set xs" by simp
    with Cons.prems(1) have "f a \<noteq> f x" by force
    with Cons.IH Cons.prems(1) m show ?thesis by simp
  qed
qed

lemma find_filter_single: "filter P xs = [x] \<Longrightarrow> find P xs = Some x"
proof (induction xs)
  case Nil
  then show ?case by simp
next
  case (Cons a xs)
  then show ?case by (cases "P a") (auto simp: filter_empty_conv find_None_iff)
qed

lemma owners_unique_filter:
  assumes "owners_unique t" and "(k, ow) \<in> set t" and "equalsIgnoreCase (login ow) l"
  shows "filter (\<lambda>r. equalsIgnoreCase (login (snd r)) l) t = [(k, ow)]"
proof -
  have "filter (\<lambda>r. map toLowerCase (login (snd r)) = map toLowerCase (login (snd (k, ow)))) t
          = [(k, ow)]"
    using assms(1,2) unfolding owners_unique_def by (rule distinct_map_filter_single)
  with assms(3) show ?thesis by (simp add: equalsIgnoreCase_def)
qed

lemma owners_unique_first:
  assumes "owners_unique t" and "(k, ow) \<in> set t" and "equalsIgnoreCase (login ow) l"
  shows "first_equalsIgnoreCase t l = Some (k, ow)"
  unfolding first_equalsIgnoreCase_def
  by (rule find_filter_single) (rule owners_unique_filter [OF assms])

lemma addRepository_owners:
  assumes "addRepository fault repo d = (res, d')"
  shows "(\<exists>os. owners d' = owners d @ os) \<and>
         (owners_unique (owners d) \<longrightarrow> owners_unique (owners d'))"
proof (cases res)
  case (Inl e)
  with assms addRepository_Inl [of fault repo d e d'] show ?thesis by simp
next
  case (Inr r)
  note w = addRepository_Inr(4) [OF assms [unfolded Inr]]
  show ?thesis
  proof (cases "getGitHubRepository repo")
    case None
    with w show ?thesis by simp
  next
    case (Some g)
    show ?thesis
    proof (cases "first_equalsIgnoreCase (owners d) (getLogin (getOwner g))")
      case ex: (Some ex)
      with w Some show ?thesis by simp
    next
      case None
      then have "\<forall>r\<in>set (owners d).
          map toLowerCase (login (snd r)) \<noteq> map toLowerCase (getLogin (getOwner g))"
        by (auto simp: first_equalsIgnoreCase_def find_None_iff equalsIgnoreCase_def)
      with w Some None show ?thesis
        by (auto simp: owners_unique_def)
    qed
  qed
qed

lemma store_step_owners:
  "store_step d d' \<Longrightarrow>
     (\<exists>os. owners d' = owners d @ os) \<and> (owners_unique (owners d) \<longrightarrow> owners_unique (owners d'))"
proof (induction rule: store_step.induct)
  case (add fault repo d res d')
  then show ?case by (rule addRepository_owners)
next
  case (update fault repository d ures d')
  then show ?case
    using updateGitHubRepository_Inl [of fault repository d _ d']
      updateGitHubRepository_Inr [of fault repository d _ d']
    by (cases ures) auto
qed

lemma store_steps_owners:
  "store_steps d d' \<Longrightarrow>
     (\<exists>os. owners d' = owners d @ os) \<and> (owners_unique (owners d) \<longrightarrow> owners_unique (owners d'))"
proof (induction rule: store_steps.induct)
  case (none d)
  then show ?case by simp
next
  case (more d d' d'')
  from store_step_owners [OF more.hyps(2)] more.IH show ?case by auto
qed

lemma find_map_key:
  "(\<And>r. fst (f r) = fst r) \<Longrightarrow>
     find (\<lambda>r. fst r = k) (map f t) = map_option f (find (\<lambda>r. fst r = k) t)"
  by (induction t) auto

lemma store_step_row_owner:
  assumes "store_step d d'"
    and "table_get (gitHubRepositories d) (Some k) = Some (k, h)"
  shows "\<exists>h'. table_get (gitHubRepositories d') (Some k) = Some (k, h') \<and> ownerID h' = ownerID h"
  using assms
proof (induction rule: store_step.induct)
  case (add fault repo d res d')
  show ?case
  proof (cases res)
    case (Inl e)
    with add addRepository_Inl [of fault repo d e d'] show ?thesis by simp
  next
    case (Inr r)
    from addRepository_Inr(3) [OF add(1) [unfolded Inr]]
    obtain gs where "gitHubRepositories d' = gitHubRepositories d @ gs"
      by (cases "getGitHubRepository repo") auto
    with add(2) show ?thesis by (simp add: table_get_append)
  qed
next
  case (update fault repository d ures d')
  show ?case
  proof (cases ures)
    case (Inl e)
    with update updateGitHubRepository_Inl [of fault repository d e d'] show ?thesis by simp
  next
    case (Inr u)
    from updateGitHubRepository_Inr [OF update(1) [unfolded Inr]]
    obtain lr ex g where "repositories d' = repositories d" and "owners d' = owners d"
      and "table_get (repositories d) (getID repository) = Some lr"
      and ex: "table_get (gitHubRepositories d) (gitHubRepositoryID (snd lr)) = Some ex"
      and "getGitHubRepository repository = Some g"
      and m: "gitHubRepositories d' =
         map (\<lambda>r. if fst r = fst ex
                   then (fst ex, \<lparr>name = getName g, ownerID = ownerID (snd ex),
                                  privateFlag = getPrivate g, fork = getFork g,
                                  htmlURL = getHTMLURL g\<rparr>)
                   else r) (gitHubRepositories d)"
      by (elim conjE exE)
    let ?f = "\<lambda>r. if fst r = fst ex
                   then (fst ex, \<lparr>name = getName g, ownerID = ownerID (snd ex),
                                  privateFlag = getPrivate g, fork = getFork g,
                                  htmlURL = getHTMLURL g\<rparr>)
                   else r"
    have t: "table_get (gitHubRepositories d') (Some k) = Some (?f (k, h))"
      using update(2) find_map_key [of ?f k "gitHubRepositories d"]
      by (simp add: table_get_def m)
    show ?thesis
    proof (cases "fst ex = k")
      case True
      from table_get_SomeD [OF ex] True have "gitHubRepositoryID (snd lr) = Some k" by simp
      with ex update(2) have "ex = (k, h)" by simp
      then have "snd ex = h" by simp
      with t True show ?thesis by simp
    next
      case False
      with t show ?thesis by simp
    qed
  qed
qed

lemma store_steps_row_owner:
  assumes "store_steps d d'"
    and "table_get (gitHubRepositories d) (Some k) = Some (k, h)"
  shows "\<exists>h'. table_get (gitHubRepositories d') (Some k) = Some (k, h') \<and> ownerID h' = ownerID h"
  using assms
proof (induction rule: store_steps.induct)
  case (none d)
  then show ?case by simp
next
  case (more d d' d'')
  from more.IH [OF more.prems] obtain h1
    where "table_get (gitHubRepositories d') (Some k) = Some (k, h1)" "ownerID h1 = ownerID h"
    by blast
  with store_step_row_owner [OF more.hyps(2), of k h1] show ?case by auto
qed

lemma equalsIgnoreCase_trans:
  "equalsIgnoreCase a b \<Longrightarrow> equalsIgnoreCase b c \<Longrightarrow> equalsIgnoreCase a c"
  by (simp add: equalsIgnoreCase_def)

lemma store_steps_reach_owners_unique:
  "store_steps empty_database d \<Longrightarrow> owners_unique (owners d)"
  using store_steps_owners [of empty_database d]
  by (simp add: owners_unique_def empty_database_def)

text \<open>
  Owner dedup from any database whose owners are unique: after two calls of
  \<open>addRepository\<close> with logins equal ignoring case, and any calls of the store between
  them, one Owner row has the login and both new GitHubRepository rows carry its id.
\<close>

lemma owner_dedup_from_unique:
  assumes u: "owners_unique (owners d0)"
    and g1: "getGitHubRepository repo1 = Some g1"
    and g2: "getGitHubRepository repo2 = Some g2"
    and eq: "equalsIgnoreCase (getLogin (getOwner g1)) (getLogin (getOwner g2))"
    and a1: "addRepository f1 repo1 d0 = (Inr r1, d1)"
    and st: "store_steps d1 d2"
    and a2: "addRepository f2 repo2 d2 = (Inr r2, d3)"
  shows "\<exists>k ow h1.
     filter (\<lambda>r. equalsIgnoreCase (login (snd r)) (getLogin (getOwner g1))) (owners d3) = [(k, ow)] \<and>
     filter (\<lambda>r. equalsIgnoreCase (login (snd r)) (getLogin (getOwner g2))) (owners d3) = [(k, ow)] \<and>
     last (gitHubRepositories d1) =
       (next_key (gitHubRepositories d0),
        \<lparr>name = getName g1, ownerID = k, privateFlag = getPrivate g1, fork = getFork g1,
         htmlURL = getHTMLURL g1\<rparr>) \<and>
     table_get (gitHubRepositories d3) (Some (next_key (gitHubRepositories d0))) =
       Some (next_key (gitHubRepositories d0), h1) \<and> ownerID h1 = k \<and>
     table_get (gitHubRepositories d3) (Some (next_key (gitHubRepositories d2))) =
       Some (next_key (gitHubRepositories d2),
        \<lparr>name = getName g2, ownerID = k, privateFlag = getPrivate g2, fork = getFork g2,
         htmlURL = getHTMLURL g2\<rparr>)"
proof -
  let ?l1 = "getLogin (getOwner g1)" and ?l2 = "getLogin (getOwner g2)"
  let ?gk1 = "next_key (gitHubRepositories d0)" and ?gk2 = "next_key (gitHubRepositories d2)"
  note w1 = addRepository_Inr [OF a1]
  note w2 = addRepository_Inr [OF a2]
  \<comment> \<open>the first call leaves an owner for the login, and its row points to it\<close>
  have "\<exists>k ow. (k, ow) \<in> set (owners d1) \<and> equalsIgnoreCase (login ow) ?l1 \<and>
     gitHubRepositories d1 = gitHubRepositories d0 @
       [(?gk1, \<lparr>name = getName g1, ownerID = k, privateFlag = getPrivate g1, fork = getFork g1,
                 htmlURL = getHTMLURL g1\<rparr>)]"
  proof (cases "first_equalsIgnoreCase (owners d0) ?l1")
    case None
    with w1(3,4) g1 show ?thesis by (auto simp: equalsIgnoreCase_refl)
  next
    case (Some ex)
    obtain k ow where ex: "ex = (k, ow)" by (cases ex)
    from first_equalsIgnoreCase_SomeD [OF Some] ex
    have "(k, ow) \<in> set (owners d0)" and "equalsIgnoreCase (login ow) ?l1" by simp_all
    with w1(3,4) g1 Some ex show ?thesis by auto
  qed
  then obtain k ow where m1: "(k, ow) \<in> set (owners d1)"
    and l1: "equalsIgnoreCase (login ow) ?l1"
    and gh1: "gitHubRepositories d1 = gitHubRepositories d0 @
       [(?gk1, \<lparr>name = getName g1, ownerID = k, privateFlag = getPrivate g1, fork = getFork g1,
                 htmlURL = getHTMLURL g1\<rparr>)]"
    by (elim exE conjE)
  from l1 eq have l2: "equalsIgnoreCase (login ow) ?l2" by (rule equalsIgnoreCase_trans)
  \<comment> \<open>owners stay unique and only grow\<close>
  from addRepository_owners [OF a1] u have u1: "owners_unique (owners d1)" by simp
  from store_steps_owners [OF st] u1 m1
  have u2: "owners_unique (owners d2)" and m2: "(k, ow) \<in> set (owners d2)" by auto
  from addRepository_owners [OF a2] u2 m2
  have u3: "owners_unique (owners d3)" and m3: "(k, ow) \<in> set (owners d3)" by auto
  note f1 = owners_unique_filter [OF u3 m3 l1]
  note f2 = owners_unique_filter [OF u3 m3 l2]
  \<comment> \<open>the second call finds that owner\<close>
  from owners_unique_first [OF u2 m2 l2] w2(3) g2
  have gh3: "gitHubRepositories d3 = gitHubRepositories d2 @
       [(?gk2, \<lparr>name = getName g2, ownerID = k, privateFlag = getPrivate g2, fork = getFork g2,
                 htmlURL = getHTMLURL g2\<rparr>)]"
    by simp
  \<comment> \<open>the first row still points to it\<close>
  have "table_get (gitHubRepositories d1) (Some ?gk1) =
      Some (?gk1, \<lparr>name = getName g1, ownerID = k, privateFlag = getPrivate g1, fork = getFork g1,
                 htmlURL = getHTMLURL g1\<rparr>)"
    by (simp add: gh1 table_get_fresh)
  from store_steps_row_owner [OF st this]
  obtain h1 where "table_get (gitHubRepositories d2) (Some ?gk1) = Some (?gk1, h1)"
    and o1: "ownerID h1 = k" by auto
  then have t1: "table_get (gitHubRepositories d3) (Some ?gk1) = Some (?gk1, h1)"
    by (simp add: gh3 table_get_append)
  have t2: "table_get (gitHubRepositories d3) (Some ?gk2) =
      Some (?gk2, \<lparr>name = getName g2, ownerID = k, privateFlag = getPrivate g2, fork = getFork g2,
                 htmlURL = getHTMLURL g2\<rparr>)"
    by (simp add: gh3 table_get_fresh)
  from f1 f2 gh1 t1 o1 t2 show ?thesis
    by (intro exI [of _ k] exI [of _ ow] exI [of _ h1]) simp
qed

section \<open>The claims\<close>

text \<open>
  C1. In every run of the store from the empty database: for two \<open>addRepository\<close> calls
  whose hosted repositories carry owner logins equal ignoring case (with any calls of the
  store before, between and after the first), after both commits exactly one Owner row has
  that login, and the GitHubRepository rows the two calls inserted both hold that row's id
  as \<open>ownerID\<close>.
\<close>

theorem owner_dedup:
  assumes "store_steps empty_database d0"
    and "getGitHubRepository repo1 = Some g1"
    and "getGitHubRepository repo2 = Some g2"
    and "equalsIgnoreCase (getLogin (getOwner g1)) (getLogin (getOwner g2))"
    and "addRepository f1 repo1 d0 = (Inr r1, d1)"
    and "store_steps d1 d2"
    and "addRepository f2 repo2 d2 = (Inr r2, d3)"
  shows "\<exists>k ow h1.
     filter (\<lambda>r. equalsIgnoreCase (login (snd r)) (getLogin (getOwner g1))) (owners d3) = [(k, ow)] \<and>
     filter (\<lambda>r. equalsIgnoreCase (login (snd r)) (getLogin (getOwner g2))) (owners d3) = [(k, ow)] \<and>
     last (gitHubRepositories d1) =
       (next_key (gitHubRepositories d0),
        \<lparr>name = getName g1, ownerID = k, privateFlag = getPrivate g1, fork = getFork g1,
         htmlURL = getHTMLURL g1\<rparr>) \<and>
     table_get (gitHubRepositories d3) (Some (next_key (gitHubRepositories d0))) =
       Some (next_key (gitHubRepositories d0), h1) \<and> ownerID h1 = k \<and>
     table_get (gitHubRepositories d3) (Some (next_key (gitHubRepositories d2))) =
       Some (next_key (gitHubRepositories d2),
        \<lparr>name = getName g2, ownerID = k, privateFlag = getPrivate g2, fork = getFork g2,
         htmlURL = getHTMLURL g2\<rparr>)"
  using store_steps_reach_owners_unique [OF assms(1)] assms(2-7)
  by (rule owner_dedup_from_unique)

theorem owner_dedup_witness:
  "store_steps empty_database empty_database \<and>
   getGitHubRepository repo_bob = Some hosted_bob \<and>
   getGitHubRepository repo_BOB = Some hosted_BOB \<and>
   equalsIgnoreCase (getLogin (getOwner hosted_bob)) (getLogin (getOwner hosted_BOB)) \<and>
   addRepository None repo_bob empty_database = (Inr (repositoryWithID repo_bob (Some 1)), db_bob) \<and>
   store_steps db_bob db_bob_local \<and>
   addRepository None repo_BOB db_bob_local = (Inr (repositoryWithID repo_BOB (Some 3)), db_bob_BOB) \<and>
   (\<exists>k ow h1.
     filter (\<lambda>r. equalsIgnoreCase (login (snd r)) (getLogin (getOwner hosted_bob))) (owners db_bob_BOB) = [(k, ow)] \<and>
     filter (\<lambda>r. equalsIgnoreCase (login (snd r)) (getLogin (getOwner hosted_BOB))) (owners db_bob_BOB) = [(k, ow)] \<and>
     last (gitHubRepositories db_bob) =
       (next_key (gitHubRepositories empty_database),
        \<lparr>name = getName hosted_bob, ownerID = k, privateFlag = getPrivate hosted_bob,
         fork = getFork hosted_bob, htmlURL = getHTMLURL hosted_bob\<rparr>) \<and>
     table_get (gitHubRepositories db_bob_BOB) (Some (next_key (gitHubRepositories empty_database))) =
       Some (next_key (gitHubRepositories empty_database), h1) \<and> ownerID h1 = k \<and>
     table_get (gitHubRepositories db_bob_BOB) (Some (next_key (gitHubRepositories db_bob_local))) =
       Some (next_key (gitHubRepositories db_bob_local),
        \<lparr>name = getName hosted_BOB, ownerID = k, privateFlag = getPrivate hosted_BOB,
         fork = getFork hosted_BOB, htmlURL = getHTMLURL hosted_BOB\<rparr>))"
proof -
  have u: "store_steps empty_database empty_database"
    by (rule store_steps.none)
  have g1: "getGitHubRepository repo_bob = Some hosted_bob"
    by (simp add: repo_bob_def hosted_bob_def)
  have g2: "getGitHubRepository repo_BOB = Some hosted_BOB"
    by (simp add: repo_BOB_def hosted_BOB_def)
  have eq: "equalsIgnoreCase (getLogin (getOwner hosted_bob)) (getLogin (getOwner hosted_BOB))"
    by code_simp
  have a1: "addRepository None repo_bob empty_database =
      (Inr (repositoryWithID repo_bob (Some 1)), db_bob)"
    by code_simp
  have "addRepository None repo_local db_bob = (Inr (repositoryWithID repo_local (Some 2)), db_bob_local)"
    by code_simp
  then have "store_step db_bob db_bob_local" by (rule store_step.add)
  with store_steps.none [of db_bob] have st: "store_steps db_bob db_bob_local"
    by (rule store_steps.more)
  have a2: "addRepository None repo_BOB db_bob_local =
      (Inr (repositoryWithID repo_BOB (Some 3)), db_bob_BOB)"
    by code_simp
  from owner_dedup [OF u g1 g2 eq a1 st a2] u g1 g2 eq a1 st a2 show ?thesis
    by (intro conjI)
qed

text \<open>
  C2. Atomicity of \<open>addRepository\<close> for an input that carries a hosted repository: whatever
  request the store fails at, the call either fails and leaves the database exactly as it
  was, or returns and the Repository row, the GitHubRepository row it links to and an Owner
  row for the login are all there. In particular, when no Owner matches and the store fails
  at the third request (after the Owner insert, before the GitHubRepository insert), the
  running transaction holds the new Owner row, and none of it is visible after the abort.
\<close>

theorem addRepository_atomic:
  assumes "getGitHubRepository repo = Some g"
  shows "(\<forall>fault res d'. addRepository fault repo d = (res, d') \<longrightarrow>
            (\<exists>e. res = Inl e \<and> d' = d) \<or>
            (\<exists>i gk ok ow. res = Inr (repositoryWithID repo (Some i)) \<and>
               last (repositories d') = (i, \<lparr>path = getPath repo, gitHubRepositoryID = Some gk\<rparr>) \<and>
               last (gitHubRepositories d') =
                 (gk, \<lparr>name = getName g, ownerID = ok, privateFlag = getPrivate g,
                       fork = getFork g, htmlURL = getHTMLURL g\<rparr>) \<and>
               (ok, ow) \<in> set (owners d') \<and>
               equalsIgnoreCase (login ow) (getLogin (getOwner g)))) \<and>
         (first_equalsIgnoreCase (owners d) (getLogin (getOwner g)) = None \<longrightarrow>
            owners (tx_db (snd (addRepository_body repo \<lparr>tx_db = d, tx_budget = Some 2\<rparr>))) =
              owners d @ [(next_key (owners d),
                           \<lparr>login = getLogin (getOwner g), endpoint = getEndpoint (getOwner g)\<rparr>)] \<and>
            addRepository (Some 2) repo d = (Inl StoreFailure, d))"
proof -
  have 1: "(\<exists>e. res = Inl e \<and> d' = d) \<or>
            (\<exists>i gk ok ow. res = Inr (repositoryWithID repo (Some i)) \<and>
               last (repositories d') = (i, \<lparr>path = getPath repo, gitHubRepositoryID = Some gk\<rparr>) \<and>
               last (gitHubRepositories d') =
                 (gk, \<lparr>name = getName g, ownerID = ok, privateFlag = getPrivate g,
                       fork = getFork g, htmlURL = getHTMLURL g\<rparr>) \<and>
               (ok, ow) \<in> set (owners d') \<and>
               equalsIgnoreCase (login ow) (getLogin (getOwner g)))"
    if a: "addRepository fault repo d = (res, d')" for fault res d'
  proof (cases res)
    case (Inl e)
    with a show ?thesis using addRepository_Inl [of fault repo d e d'] by simp
  next
    case (Inr r)
    note w = addRepository_Inr [OF a [unfolded Inr]]
    show ?thesis
    proof (cases "first_equalsIgnoreCase (owners d) (getLogin (getOwner g))")
      case None
      with w assms Inr show ?thesis
        by (auto simp: equalsIgnoreCase_refl)
    next
      case (Some ex)
      obtain k ow where ex: "ex = (k, ow)" by (cases ex)
      from first_equalsIgnoreCase_SomeD [OF Some]
      have "(k, ow) \<in> set (owners d)"
        and "equalsIgnoreCase (login ow) (getLogin (getOwner g))" by (simp_all add: ex)
      with w assms Inr Some ex show ?thesis
        by auto
    qed
  qed
  have 2: "owners (tx_db (snd (addRepository_body repo \<lparr>tx_db = d, tx_budget = Some 2\<rparr>))) =
              owners d @ [(next_key (owners d),
                           \<lparr>login = getLogin (getOwner g), endpoint = getEndpoint (getOwner g)\<rparr>)] \<and>
            addRepository (Some 2) repo d = (Inl StoreFailure, d)"
    if "first_equalsIgnoreCase (owners d) (getLogin (getOwner g)) = None"
    using that assms
    by (simp add: addRepository_def addRepository_body_def tx_defs req_defs table_add_def Let_def)
  from 1 2 show ?thesis by blast
qed

theorem addRepository_atomic_witness:
  "getGitHubRepository repo_alice = Some hosted_alice \<and>
   first_equalsIgnoreCase (owners empty_database) (getLogin (getOwner hosted_alice)) = None \<and>
   owners (tx_db (snd (addRepository_body repo_alice
       \<lparr>tx_db = empty_database, tx_budget = Some 2\<rparr>))) =
     [(1, \<lparr>login = ''Alice'', endpoint = ''https://api.example.com''\<rparr>)] \<and>
   addRepository (Some 2) repo_alice empty_database = (Inl StoreFailure, empty_database) \<and>
   fst (addRepository None repo_alice empty_database) = Inr (repositoryWithID repo_alice (Some 1))"
proof -
  have h: "getGitHubRepository repo_alice = Some hosted_alice"
    by (simp add: repo_alice_def hosted_alice_def)
  have n: "first_equalsIgnoreCase (owners empty_database) (getLogin (getOwner hosted_alice)) = None"
    by (simp add: first_equalsIgnoreCase_def empty_database_def)
  have k: "next_key (owners empty_database) = 1"
    by (simp add: next_key_def empty_database_def)
  have e: "fst (addRepository None repo_alice empty_database) =
      Inr (repositoryWithID repo_alice (Some 1))"
    by code_simp
  from addRepository_atomic [OF h, of empty_database] h n k e show ?thesis
    by (simp add: empty_database_def hosted_alice_def)
qed

text \<open>
  C3, as stated, fails where \<open>addRepository\<close> reuses an Owner row: after adding a repository
  of owner \<open>bob\<close> and then one of owner \<open>BOB\<close> (another endpoint), \<open>getRepositories\<close>
  returns the second with login \<open>bob\<close> and the first one's endpoint, not the inserted ones.
\<close>

theorem addRepository_dedup_changes_owner:
  "addRepository None repo_bob empty_database = (Inr (repositoryWithID repo_bob (Some 1)), db_bob) \<and>
   getGitHubRepository repo_BOB = Some (GitHubRepository ''q'' (Owner ''BOB'' ''e2'') True False ''v'') \<and>
   getRepositories None (snd (addRepository None repo_BOB db_bob)) =
     Inr [Repository ''/a'' (Some (GitHubRepository ''p'' (Owner ''bob'' ''e1'') False False ''u'')) (Some 1),
          Repository ''/b'' (Some (GitHubRepository ''q'' (Owner ''bob'' ''e1'') True False ''v'')) (Some 2)]"
  by code_simp

text \<open>
  C3, amended. For every Repository row whose hosted-repository id is neither null nor
  \<open>0\<close> and whose GitHubRepository and Owner rows exist, \<open>getRepositories\<close> returns for
  that row a Repository whose hosted-repository fields (name, private, fork, htmlURL) and
  owner fields (login, endpoint) are those of the referenced rows. And on a database that
  \<open>getRepositories\<close> can list, \<open>addRepository\<close> of a repository with a hosted repository
  followed by \<open>getRepositories\<close> returns the former list and one more entry with the input's
  path, the generated id and the input's name, private, fork and htmlURL; its owner is the
  input's owner when no Owner row matched the login, and otherwise (primary keys of
  \<open>owners\<close> being distinct) the login and endpoint of the matching row, whose login equals
  the input's ignoring case.
\<close>

theorem getRepositories_roundtrip:
  "(\<forall>fault rs i k g ow.
      getRepositories fault d = Inr rs \<longrightarrow> i < length (repositories d) \<longrightarrow>
      gitHubRepositoryID (snd (repositories d ! i)) = Some k \<longrightarrow> k \<noteq> 0 \<longrightarrow>
      table_get (gitHubRepositories d) (Some k) = Some g \<longrightarrow>
      table_get (owners d) (Some (ownerID (snd g))) = Some ow \<longrightarrow>
      rs ! i =
        Repository (path (snd (repositories d ! i)))
          (Some (GitHubRepository (name (snd g)) (Owner (login (snd ow)) (endpoint (snd ow)))
             (privateFlag (snd g)) (fork (snd g)) (htmlURL (snd g))))
          (Some (fst (repositories d ! i)))) \<and>
   (\<forall>fault repo h r d' rs0.
      getRepositories None d = Inr rs0 \<longrightarrow> addRepository fault repo d = (Inr r, d') \<longrightarrow>
      getGitHubRepository repo = Some h \<longrightarrow>
      (\<exists>ow. getRepositories None d' =
           Inr (rs0 @ [Repository (getPath repo)
                  (Some (GitHubRepository (getName h) ow (getPrivate h) (getFork h) (getHTMLURL h)))
                  (getID r)]) \<and>
         (first_equalsIgnoreCase (owners d) (getLogin (getOwner h)) = None \<longrightarrow> ow = getOwner h) \<and>
         (\<forall>ex. distinct (map fst (owners d)) \<longrightarrow>
            first_equalsIgnoreCase (owners d) (getLogin (getOwner h)) = Some ex \<longrightarrow>
            ow = Owner (login (snd ex)) (endpoint (snd ex)) \<and>
            equalsIgnoreCase (getLogin ow) (getLogin (getOwner h)))))"
  using getRepositories_linked_row [of _ d] getRepositories_after_add [of d]
  by (intro conjI allI impI) blast+

theorem getRepositories_roundtrip_witness:
  "getRepositories None db_mixed =
     Inr [Repository ''/local'' None (Some 1), Repository ''/repo'' (Some hosted_alice) (Some 2)] \<and>
   gitHubRepositoryID (snd (repositories db_mixed ! 1)) = Some 1 \<and>
   [Repository ''/local'' None (Some 1), Repository ''/repo'' (Some hosted_alice) (Some 2)] ! 1 =
     Repository ''/repo''
       (Some (GitHubRepository ''proj'' (Owner ''Alice'' ''https://api.example.com'') False False
          ''https://example.com/a/proj'')) (Some 2) \<and>
   getRepositories None empty_database = Inr [] \<and>
   first_equalsIgnoreCase (owners empty_database) (getLogin (getOwner hosted_alice)) = None \<and>
   getRepositories None (snd (addRepository None repo_alice empty_database)) =
     Inr [Repository ''/repo'' (Some hosted_alice) (Some 1)] \<and>
   distinct (map fst (owners db_bob)) \<and>
   first_equalsIgnoreCase (owners db_bob) (getLogin (getOwner hosted_BOB)) =
     Some (1, \<lparr>login = ''bob'', endpoint = ''e1''\<rparr>) \<and>
   (\<exists>ow. getRepositories None (snd (addRepository None repo_BOB db_bob)) =
      Inr ([Repository ''/a'' (Some hosted_bob) (Some 1)] @
           [Repository ''/b''
              (Some (GitHubRepository ''q'' ow True False ''v'')) (Some 2)]) \<and>
      ow = Owner ''bob'' ''e1'' \<and> equalsIgnoreCase (getLogin ow) ''BOB'')"
proof -
  note rt = getRepositories_roundtrip
  \<comment> \<open>a linked row of a database\<close>
  have e: "getRepositories None db_mixed =
     Inr [Repository ''/local'' None (Some 1), Repository ''/repo'' (Some hosted_alice) (Some 2)]"
    by code_simp
  have i: "1 < length (repositories db_mixed)" by (simp add: db_mixed_def)
  have k: "gitHubRepositoryID (snd (repositories db_mixed ! 1)) = Some 1"
    by (simp add: db_mixed_def)
  have g: "table_get (gitHubRepositories db_mixed) (Some 1) =
     Some (1, \<lparr>name = ''proj'', ownerID = 1, privateFlag = False, fork = False,
               htmlURL = ''https://example.com/a/proj''\<rparr>)"
    by (simp add: db_mixed_def table_get_def)
  have o: "table_get (owners db_mixed)
      (Some (ownerID (snd (1::nat, \<lparr>name = ''proj'', ownerID = 1, privateFlag = False, fork = False,
               htmlURL = ''https://example.com/a/proj''\<rparr>)))) =
     Some (1, \<lparr>login = ''Alice'', endpoint = ''https://api.example.com''\<rparr>)"
    by (simp add: db_mixed_def table_get_def)
  have a: "[Repository ''/local'' None (Some 1), Repository ''/repo'' (Some hosted_alice) (Some 2)] ! 1 =
     Repository ''/repo''
       (Some (GitHubRepository ''proj'' (Owner ''Alice'' ''https://api.example.com'') False False
          ''https://example.com/a/proj'')) (Some 2)"
    using rt [of db_mixed, THEN conjunct1, rule_format, OF e i k _ g o]
    by (simp add: db_mixed_def)
  \<comment> \<open>adding to the empty database\<close>
  have e0: "getRepositories None empty_database = Inr []" by code_simp
  have n0: "first_equalsIgnoreCase (owners empty_database) (getLogin (getOwner hosted_alice)) = None"
    by (simp add: first_equalsIgnoreCase_def empty_database_def)
  have a0: "addRepository None repo_alice empty_database =
     (Inr (repositoryWithID repo_alice (Some 1)), snd (addRepository None repo_alice empty_database))"
    by code_simp
  have h0: "getGitHubRepository repo_alice = Some hosted_alice"
    by (simp add: repo_alice_def hosted_alice_def)
  have b: "getRepositories None (snd (addRepository None repo_alice empty_database)) =
     Inr [Repository ''/repo'' (Some hosted_alice) (Some 1)]"
    using rt [of empty_database, THEN conjunct2, rule_format, OF e0 a0 h0] n0
    by (auto simp: hosted_alice_def repo_alice_def repositoryWithID_def)
  \<comment> \<open>adding under an owner that is there in another case\<close>
  have e1: "getRepositories None db_bob = Inr [Repository ''/a'' (Some hosted_bob) (Some 1)]"
    by code_simp
  have a1: "addRepository None repo_BOB db_bob =
     (Inr (repositoryWithID repo_BOB (Some 2)), snd (addRepository None repo_BOB db_bob))"
    by code_simp
  have h1: "getGitHubRepository repo_BOB = Some hosted_BOB"
    by (simp add: repo_BOB_def hosted_BOB_def)
  have d1: "distinct (map fst (owners db_bob))" by (simp add: db_bob_def)
  have f1: "first_equalsIgnoreCase (owners db_bob) (getLogin (getOwner hosted_BOB)) =
     Some (1, \<lparr>login = ''bob'', endpoint = ''e1''\<rparr>)"
    by code_simp
  have c: "\<exists>ow. getRepositories None (snd (addRepository None repo_BOB db_bob)) =
      Inr ([Repository ''/a'' (Some hosted_bob) (Some 1)] @
           [Repository ''/b''
              (Some (GitHubRepository ''q'' ow True False ''v'')) (Some 2)]) \<and>
      ow = Owner ''bob'' ''e1'' \<and> equalsIgnoreCase (getLogin ow) ''BOB''"
    using rt [of db_bob, THEN conjunct2, rule_format, OF e1 a1 h1] d1 f1
    by (auto simp: hosted_BOB_def repo_BOB_def repositoryWithID_def)
  from e k a e0 n0 b d1 f1 c show ?thesis by simp
qed

text \<open>
  C4. The claim: when the Repository row's stored hosted-repository id resolves to no
  GitHubRepository row, \<open>updateGitHubRepository\<close> inserts a new Owner row from the input and
  uses its id for the upsert. The code has that branch, but reads
  \<open>existingGitHubRepo.ownerID\<close> first: on a row whose link dangles the call fails with a
  TypeError, and no Owner row and no GitHubRepository row is written.
\<close>

theorem updateGitHubRepository_absent_row_no_owner:
  "updateGitHubRepository None (repositoryWithID repo_alice (Some 1)) db_dangling =
     (Inl TypeError, db_dangling) \<and>
   owners db_dangling = [] \<and> gitHubRepositories db_dangling = []"
  by code_simp

text \<open>
  C5. For every Repository row whose hosted-repository id is null, \<open>getRepositories\<close>
  returns for that row a Repository without hosted repository, with the row's path and id:
  the row inflates to it in every state of the transaction, and whenever \<open>getRepositories\<close>
  returns, its result has one entry for each row and that entry at the row's position.
\<close>

theorem getRepositories_bare_row:
  assumes "i < length (repositories d)"
    and "gitHubRepositoryID (snd (repositories d ! i)) = None"
  shows "(\<forall>s. fst (inflate (repositories d ! i) s) =
            Inr (Repository (path (snd (repositories d ! i))) None
                   (Some (fst (repositories d ! i))))) \<and>
         (\<forall>fault rs. getRepositories fault d = Inr rs \<longrightarrow>
            length rs = length (repositories d) \<and>
            rs ! i = Repository (path (snd (repositories d ! i))) None
                       (Some (fst (repositories d ! i))))"
proof -
  have b: "\<not> truthy (gitHubRepositoryID (snd (repositories d ! i)))"
    using assms(2) by (simp add: truthy_def)
  have 2: "length rs = length (repositories d) \<and>
            rs ! i = Repository (path (snd (repositories d ! i))) None
                       (Some (fst (repositories d ! i)))"
    if "getRepositories fault d = Inr rs" for fault rs
    using getRepositories_nth [OF that assms(1)] by (simp add: inflate_bare [OF b])
  from 2 show ?thesis by (simp add: inflate_bare [OF b])
qed

theorem getRepositories_bare_row_witness:
  "0 < length (repositories db_mixed) \<and>
   gitHubRepositoryID (snd (repositories db_mixed ! 0)) = None \<and>
   getRepositories None db_mixed =
     Inr [Repository ''/local'' None (Some 1), Repository ''/repo'' (Some hosted_alice) (Some 2)] \<and>
   [Repository ''/local'' None (Some 1), Repository ''/repo'' (Some hosted_alice) (Some 2)] ! 0 =
     Repository (path (snd (repositories db_mixed ! 0))) None (Some (fst (repositories db_mixed ! 0)))"
proof -
  have h1: "0 < length (repositories db_mixed)" by (simp add: db_mixed_def)
  have h2: "gitHubRepositoryID (snd (repositories db_mixed ! 0)) = None"
    by (simp add: db_mixed_def)
  have e: "getRepositories None db_mixed =
     Inr [Repository ''/local'' None (Some 1), Repository ''/repo'' (Some hosted_alice) (Some 2)]"
    by code_simp
  from getRepositories_bare_row [OF h1 h2] e h1 h2 show ?thesis by blast
qed

text \<open>
  C6, as stated, fails on a row whose hosted-repository id is \<open>0\<close>: the source tests
  \<open>if (repo.gitHubRepositoryID)\<close>, \<open>0\<close> is falsy, and the row is returned as a bare
  Repository although no GitHubRepository row has that id.
\<close>

theorem getRepositories_zero_link_returns:
  "(1, \<lparr>path = ''/repo'', gitHubRepositoryID = Some 0\<rparr>) \<in> set (repositories db_zero_link) \<and>
   table_get (gitHubRepositories db_zero_link) (Some 0) = None \<and>
   getRepositories None db_zero_link = Inr [Repository ''/repo'' None (Some 1)]"
  by code_simp

text \<open>
  C6, amended. \<open>getRepositories\<close> fails whenever some Repository row has a hosted-repository
  id that is neither null nor \<open>0\<close> and the GitHubRepository row it names, or the Owner row
  that one names, is absent; with a store that serves every request the error is the
  TypeError of the property read.
\<close>

theorem getRepositories_dangling_fails:
  assumes "repo \<in> set (repositories d)"
    and "gitHubRepositoryID (snd repo) = Some k" and "k \<noteq> 0"
    and "table_get (gitHubRepositories d) (Some k) = None \<or>
         (\<exists>g. table_get (gitHubRepositories d) (Some k) = Some g \<and>
              table_get (owners d) (Some (ownerID (snd g))) = None)"
  shows "(\<exists>e. getRepositories fault d = Inl e) \<and> getRepositories None d = Inl TypeError"
proof -
  have t: "truthy (gitHubRepositoryID (snd repo))"
    using assms(2,3) by (simp add: truthy_def)
  have f: "fst (inflate repo \<lparr>tx_db = d, tx_budget = None\<rparr>) = Inl TypeError"
    using inflate_dangling [OF t, of d] assms(2,4) by simp
  from getRepositories_fails [OF assms(1) f] have 1: "\<exists>e. getRepositories fault d = Inl e" .
  have "\<not> (\<forall>repo\<in>set (repositories d).
            \<exists>y. fst (inflate repo \<lparr>tx_db = d, tx_budget = None\<rparr>) = Inr y)"
    using assms(1) f by force
  then have 2: "getRepositories None d = Inl TypeError"
    by (simp only: getRepositories_None if_False)
  from 1 2 show ?thesis by simp
qed

theorem getRepositories_dangling_fails_witness:
  "(1, \<lparr>path = ''/repo'', gitHubRepositoryID = Some 1\<rparr>) \<in> set (repositories db_no_owner) \<and>
   (1::nat) \<noteq> 0 \<and>
   table_get (gitHubRepositories db_no_owner) (Some 1) =
     Some (1, \<lparr>name = ''proj'', ownerID = 3, privateFlag = False, fork = False,
               htmlURL = ''https://example.com/a/proj''\<rparr>) \<and>
   table_get (owners db_no_owner) (Some 3) = None \<and>
   getRepositories None db_no_owner = Inl TypeError"
proof -
  have h1: "(1, \<lparr>path = ''/repo'', gitHubRepositoryID = Some 1\<rparr>) \<in> set (repositories db_no_owner)"
    by (simp add: db_no_owner_def)
  have h2: "gitHubRepositoryID (snd (1::nat, \<lparr>path = ''/repo'', gitHubRepositoryID = Some 1\<rparr>)) = Some 1"
    by simp
  have h3: "(1::nat) \<noteq> 0" by simp
  have g: "table_get (gitHubRepositories db_no_owner) (Some 1) =
     Some (1, \<lparr>name = ''proj'', ownerID = 3, privateFlag = False, fork = False,
               htmlURL = ''https://example.com/a/proj''\<rparr>)"
    by (simp add: db_no_owner_def table_get_def)
  have o: "table_get (owners db_no_owner) (Some 3) = None"
    by (simp add: db_no_owner_def table_get_def)
  have h4: "table_get (gitHubRepositories db_no_owner) (Some 1) = None \<or>
         (\<exists>g. table_get (gitHubRepositories db_no_owner) (Some 1) = Some g \<and>
              table_get (owners db_no_owner) (Some (ownerID (snd g))) = None)"
    using g o by simp
  from getRepositories_dangling_fails [OF h1 h2 h3 h4] h1 g o show ?thesis by simp
qed

text \<open>
  C7. For every input repository, \<open>addRepository\<close> returns the input re-expressed with the
  newly generated Repository id, every other field (path, attached hosted repository and
  owner) unchanged. With a store that serves every request it returns that value, and the id
  is the key of the row it appended to \<open>repositories\<close>; whenever it returns, under any
  fault, the value is built from the input and that key, not read back from the tables.
\<close>

theorem addRepository_returns_input_with_id:
  "(\<exists>d'. addRepository None repo d =
      (Inr (Repository (getPath repo) (getGitHubRepository repo)
              (Some (next_key (repositories d)))), d') \<and>
      fst (last (repositories d')) = next_key (repositories d)) \<and>
   (\<forall>fault r d'. addRepository fault repo d = (Inr r, d') \<longrightarrow>
      r = Repository (getPath repo) (getGitHubRepository repo)
            (Some (fst (last (repositories d')))))"
proof -
  obtain r d' where a: "addRepository None repo d = (Inr r, d')"
    using addRepository_None_returns by blast
  have "r = repositoryWithID repo (Some (next_key (repositories d)))"
    and "fst (last (repositories d')) = next_key (repositories d)"
    using addRepository_Inr(1,2) [OF a] by simp_all
  then have 1: "\<exists>d'. addRepository None repo d =
      (Inr (Repository (getPath repo) (getGitHubRepository repo)
              (Some (next_key (repositories d)))), d') \<and>
      fst (last (repositories d')) = next_key (repositories d)"
    using a by (auto simp: repositoryWithID_def)
  have 2: "r = Repository (getPath repo) (getGitHubRepository repo)
                 (Some (fst (last (repositories d'))))"
    if "addRepository fault repo d = (Inr r, d')" for fault r d'
    using addRepository_Inr(1,2) [OF that] by (simp add: repositoryWithID_def)
  from 1 2 show ?thesis by blast
qed

theorem addRepository_returns_input_with_id_witness:
  "addRepository None repo_alice empty_database =
     (Inr (Repository ''/repo'' (getGitHubRepository repo_alice) (Some 1)),
      snd (addRepository None repo_alice empty_database))"
proof -
  have "\<forall>fault r d'. addRepository fault repo_alice empty_database = (Inr r, d') \<longrightarrow>
      r = Repository (getPath repo_alice) (getGitHubRepository repo_alice)
            (Some (fst (last (repositories d'))))"
    using addRepository_returns_input_with_id [of repo_alice empty_database] by blast
  moreover have "addRepository None repo_alice empty_database =
    (Inr (repositoryWithID repo_alice (Some 1)), snd (addRepository None repo_alice empty_database))"
    by code_simp
  moreover have "fst (last (repositories (snd (addRepository None repo_alice empty_database)))) = 1"
    by code_simp
  moreover have "getPath repo_alice = ''/repo''" by (simp add: repo_alice_def)
  ultimately show ?thesis by metis
qed

text \<open>
  C8. Adding the same repository value twice gives two rows: both calls return (with a store
  that serves every request), and whenever both return, the two generated ids differ and
  \<open>repositories\<close> has grown by two rows with the input's path. Nothing is merged on path.
\<close>

theorem addRepository_twice_distinct:
  "(\<exists>r1 d1 r2 d2. addRepository None repo d = (Inr r1, d1) \<and>
       addRepository None repo d1 = (Inr r2, d2)) \<and>
   (\<forall>f1 f2 r1 d1 r2 d2.
      addRepository f1 repo d = (Inr r1, d1) \<longrightarrow> addRepository f2 repo d1 = (Inr r2, d2) \<longrightarrow>
      (\<exists>i1 i2 row1 row2. getID r1 = Some i1 \<and> getID r2 = Some i2 \<and> i1 \<noteq> i2 \<and>
         repositories d2 = repositories d @ [(i1, row1), (i2, row2)] \<and>
         path row1 = getPath repo \<and> path row2 = getPath repo))"
proof -
  have 1: "\<exists>r1 d1 r2 d2. addRepository None repo d = (Inr r1, d1) \<and>
       addRepository None repo d1 = (Inr r2, d2)"
    using addRepository_None_returns by metis
  have 2: "\<exists>i1 i2 row1 row2. getID r1 = Some i1 \<and> getID r2 = Some i2 \<and> i1 \<noteq> i2 \<and>
         repositories d2 = repositories d @ [(i1, row1), (i2, row2)] \<and>
         path row1 = getPath repo \<and> path row2 = getPath repo"
    if a1: "addRepository f1 repo d = (Inr r1, d1)" and a2: "addRepository f2 repo d1 = (Inr r2, d2)"
    for f1 f2 r1 d1 r2 d2
  proof -
    note w1 = addRepository_Inr(1,2) [OF a1]
    note w2 = addRepository_Inr(1,2) [OF a2]
    have "(next_key (repositories d), \<lparr>path = getPath repo,
              gitHubRepositoryID =
                map_option (\<lambda>_. next_key (gitHubRepositories d)) (getGitHubRepository repo)\<rparr>)
          \<in> set (repositories d1)"
      using w1(2) by simp
    from next_key_gt [OF this] have "next_key (repositories d) \<noteq> next_key (repositories d1)"
      by simp
    with w1 w2 show ?thesis
      by (simp add: repositoryWithID_def)
  qed
  from 1 2 show ?thesis by blast
qed

theorem addRepository_twice_distinct_witness:
  "addRepository None repo_local empty_database =
     (Inr (Repository ''/local'' None (Some 1)),
      \<lparr>repositories = [(1, \<lparr>path = ''/local'', gitHubRepositoryID = None\<rparr>)],
       gitHubRepositories = [], owners = []\<rparr>) \<and>
   addRepository None repo_local
      \<lparr>repositories = [(1, \<lparr>path = ''/local'', gitHubRepositoryID = None\<rparr>)],
       gitHubRepositories = [], owners = []\<rparr> =
     (Inr (Repository ''/local'' None (Some 2)),
      \<lparr>repositories = [(1, \<lparr>path = ''/local'', gitHubRepositoryID = None\<rparr>),
                       (2, \<lparr>path = ''/local'', gitHubRepositoryID = None\<rparr>)],
       gitHubRepositories = [], owners = []\<rparr>) \<and>
   (\<exists>i1 i2 row1 row2. getID (Repository ''/local'' None (Some 1)) = Some i1 \<and>
      getID (Repository ''/local'' None (Some 2)) = Some i2 \<and> i1 \<noteq> i2 \<and>
      repositories \<lparr>repositories = [(1, \<lparr>path = ''/local'', gitHubRepositoryID = None\<rparr>),
                       (2, \<lparr>path = ''/local'', gitHubRepositoryID = None\<rparr>)],
       gitHubRepositories = [], owners = []\<rparr> = repositories empty_database @ [(i1, row1), (i2, row2)] \<and>
      path row1 = getPath repo_local \<and> path row2 = getPath repo_local)"
proof -
  have a1: "addRepository None repo_local empty_database =
     (Inr (Repository ''/local'' None (Some 1)),
      \<lparr>repositories = [(1, \<lparr>path = ''/local'', gitHubRepositoryID = None\<rparr>)],
       gitHubRepositories = [], owners = []\<rparr>)"
    by code_simp
  have a2: "addRepository None repo_local
      \<lparr>repositories = [(1, \<lparr>path = ''/local'', gitHubRepositoryID = None\<rparr>)],
       gitHubRepositories = [], owners = []\<rparr> =
     (Inr (Repository ''/local'' None (Some 2)),
      \<lparr>repositories = [(1, \<lparr>path = ''/local'', gitHubRepositoryID = None\<rparr>),
                       (2, \<lparr>path = ''/local'', gitHubRepositoryID = None\<rparr>)],
       gitHubRepositories = [], owners = []\<rparr>)"
    by code_simp
  from addRepository_twice_distinct [of repo_local empty_database] a1 a2
  show ?thesis by blast
qed

text \<open>
  C9. Frame: no call of \<open>updateGitHubRepository\<close> changes the \<open>repositories\<close> table: the
  row's path, id and link to its hosted repository stay as they were, whether the call
  commits or fails.
\<close>

theorem updateGitHubRepository_frame_repositories:
  "repositories (snd (updateGitHubRepository fault repository d)) = repositories d"
proof (cases "updateGitHubRepository fault repository d")
  case (Pair res d')
  show ?thesis
  proof (cases res)
    case (Inl e)
    with Pair show ?thesis
      using updateGitHubRepository_Inl [of fault repository d e d'] by simp
  next
    case (Inr u)
    with Pair show ?thesis
      using updateGitHubRepository_Inr [of fault repository d u d'] by simp
  qed
qed

text \<open>
  C10. \<open>updateGitHubRepository\<close> reads \<open>ownerID\<close> of the fetched GitHubRepository row before
  it tests whether the row is absent. So when the Repository row's stored hosted-repository
  id resolves to no GitHubRepository row, the call fails (with a TypeError when the store
  serves every request), the body has written nothing when it fails, and the three tables are
  as before.
\<close>

theorem updateGitHubRepository_absent_row_fails:
  assumes "table_get (repositories d) (getID repository) = Some lr"
    and "table_get (gitHubRepositories d) (gitHubRepositoryID (snd lr)) = None"
  shows "(\<exists>e. updateGitHubRepository fault repository d = (Inl e, d)) \<and>
    updateGitHubRepository None repository d = (Inl TypeError, d) \<and>
    tx_db (snd (updateGitHubRepository_body repository \<lparr>tx_db = d, tx_budget = fault\<rparr>)) = d"
  using assms
  by (auto simp: updateGitHubRepository_def updateGitHubRepository_body_def tx_defs req_defs
        split: prod.splits sum.splits option.splits if_splits)

theorem updateGitHubRepository_absent_row_fails_witness:
  "table_get (repositories db_bare) (getID (repositoryWithID repo_alice (Some 1))) =
     Some (1, \<lparr>path = ''/repo'', gitHubRepositoryID = None\<rparr>) \<and>
   table_get (gitHubRepositories db_bare)
     (gitHubRepositoryID (snd (1::nat, \<lparr>path = ''/repo'', gitHubRepositoryID = None\<rparr>))) = None \<and>
   updateGitHubRepository None (repositoryWithID repo_alice (Some 1)) db_bare =
     (Inl TypeError, db_bare)"
proof -
  have h1: "table_get (repositories db_bare) (getID (repositoryWithID repo_alice (Some 1))) =
     Some (1, \<lparr>path = ''/repo'', gitHubRepositoryID = None\<rparr>)"
    by (simp add: table_get_def db_bare_def repositoryWithID_def)
  have h2: "table_get (gitHubRepositories db_bare)
     (gitHubRepositoryID (snd (1::nat, \<lparr>path = ''/repo'', gitHubRepositoryID = None\<rparr>))) = None"
    by (simp add: table_get_def)
  from updateGitHubRepository_absent_row_fails [OF h1 h2, of None] h1 h2
  show ?thesis by simp
qed

end
